theory Spec2Isabelle
  imports Complex_Main "HOL-Library.Char_ord" "HOL-Library.List_Lexorder" "HOL-Library.Multiset"
    "HOL-Library.Sublist"
begin

section \<open>The notes-sharing store of \<^verbatim>\<open>app.py\<close> (class \<^verbatim>\<open>NotesDatabase\<close>)\<close>

text \<open>
  The program keeps four SQLite tables (\<^verbatim>\<open>users\<close>, \<^verbatim>\<open>notes\<close>, \<^verbatim>\<open>download_history\<close>,
  \<^verbatim>\<open>ratings\<close>), a directory of uploaded files and one process-wide attribute
  \<^verbatim>\<open>current_user\<close>. Every table is modelled as the list of its rows in rowid order, every
  method of \<^verbatim>\<open>NotesDatabase\<close> as a function from the state (and the inputs the method reads
  from its environment: the clock, the outcome of a file operation) to the new state and
  the returned tuple.

  Text is a \<^typ>\<open>string\<close>; one \<^typ>\<open>char\<close> stands for one character of the Python
  string (a code point below 256). Python integers are \<^typ>\<open>int\<close>. An SQLite \<^verbatim>\<open>INTEGER\<close>
  holds the signed 64-bit range only: binding a Python integer outside it raises
  \<^verbatim>\<open>OverflowError\<close>, which is modelled where a method binds an integer it was given
  (\<open>in_int64\<close> below). The ids of the stored rows are database integers, so an id
  outside the range is the id of no row; the counters of the tables come nowhere near
  the bound. Failures of the database engine itself (a locked or unwritable file) are
  left out.
\<close>

subsection \<open>Rows\<close>

text \<open>Table \<^verbatim>\<open>users\<close>; \<^verbatim>\<open>password\<close> holds the digest.\<close>

record user =
  u_id :: int
  u_username :: string
  u_password :: string
  u_email :: string
  u_role :: string
  u_created_at :: string

text \<open>
  Table \<^verbatim>\<open>notes\<close>. The column \<^verbatim>\<open>tags\<close> holds \<^verbatim>\<open>json.dumps\<close> of a list of strings and is
  only ever read back through \<^verbatim>\<open>json.loads\<close> or matched by \<^verbatim>\<open>LIKE\<close>; the row keeps the list
  and \<open>json_dumps\<close> below produces the stored text where the query matches on it.
\<close>

record note_row =
  n_id :: int
  n_title :: string
  n_category :: string
  n_subject :: string
  n_description :: string
  n_uploader_id :: int
  n_upload_date :: string
  n_downloads :: int
  n_tags :: "string list"
  n_file_path :: string
  n_file_name :: string
  n_file_size :: nat
  n_rating_sum :: int
  n_rating_count :: int

text \<open>
  Tables \<^verbatim>\<open>download_history\<close> and \<^verbatim>\<open>ratings\<close>. Their surrogate \<^verbatim>\<open>id\<close> columns are never
  read by the program and are left out; the position in the list is the rowid order.
\<close>

record download =
  d_note_id :: int
  d_user_id :: int
  d_download_date :: string

record rating =
  r_note_id :: int
  r_user_id :: int
  r_rating :: int
  r_review :: string
  r_created_at :: string

text \<open>The dictionary stored in \<^verbatim>\<open>self.current_user\<close>.\<close>

record session =
  s_id :: int
  s_username :: string
  s_role :: string

text \<open>
  The whole state. \<open>users_seq\<close> and \<open>notes_seq\<close> are the \<^verbatim>\<open>AUTOINCREMENT\<close> counters of the
  two tables whose ids are read (the largest id ever handed out); \<open>files\<close> is the file
  system, path to content.
\<close>

record db =
  users :: "user list"
  notes_tbl :: "note_row list"
  download_history :: "download list"
  ratings :: "rating list"
  users_seq :: int
  notes_seq :: int
  files :: "string \<rightharpoonup> string"
  current_user :: "session option"

subsection \<open>Returned tuples\<close>

text \<open>
  Every method returns \<^verbatim>\<open>(False, message)\<close> on failure. The messages of the source, one
  constructor each:
  \<^item> \<open>PleaseLogin\<close>: "Please login first";
  \<^item> \<open>InvalidCredentials\<close>: "Invalid username or password";
  \<^item> \<open>UsernameTooShort\<close>: "Username must be at least 3 characters";
  \<^item> \<open>PasswordTooShort\<close>: "Password must be at least 6 characters";
  \<^item> \<open>UsernameExists\<close>: "Username already exists";
  \<^item> \<open>NoFile\<close>: "Please upload a file";
  \<^item> \<open>MissingFields\<close>: "Please fill all required fields";
  \<^item> \<open>UploadError\<close>: "Error uploading file: ...";
  \<^item> \<open>NoteNotFound\<close>: "Note not found";
  \<^item> \<open>RatingOutOfRange\<close>: "Rating must be between 1 and 5";
  \<^item> \<open>RatingError\<close>: "Error submitting rating: ..." (the \<^verbatim>\<open>except\<close> clause of \<^verbatim>\<open>rate_note\<close>);
  \<^item> \<open>NoPermission\<close>: "You don't have permission to delete this note".
\<close>

datatype failure =
    PleaseLogin
  | InvalidCredentials
  | UsernameTooShort
  | PasswordTooShort
  | UsernameExists
  | NoFile
  | MissingFields
  | UploadError
  | NoteNotFound
  | RatingOutOfRange
  | RatingError
  | NoPermission

text \<open>The error taxonomy of the specification, and the class each message falls in.\<close>

datatype error_class = AuthError | ValidationError | ConflictError | NotFoundError | StorageError

fun error_class_of :: "failure \<Rightarrow> error_class" where
  "error_class_of PleaseLogin = AuthError"
| "error_class_of InvalidCredentials = AuthError"
| "error_class_of NoPermission = AuthError"
| "error_class_of UsernameTooShort = ValidationError"
| "error_class_of PasswordTooShort = ValidationError"
| "error_class_of NoFile = ValidationError"
| "error_class_of MissingFields = ValidationError"
| "error_class_of RatingOutOfRange = ValidationError"
| "error_class_of UsernameExists = ConflictError"
| "error_class_of NoteNotFound = NotFoundError"
| "error_class_of UploadError = StorageError"
| "error_class_of RatingError = StorageError"

text \<open>
  A method either returns its tuple or is left by an exception it does not catch:
  \<^verbatim>\<open>OverflowError\<close> ("Python int too large to convert to SQLite INTEGER") when an
  integer outside the signed 64-bit range is bound to a statement, and
  \<^verbatim>\<open>sqlite3.OperationalError\<close> ("LIKE or GLOB pattern too complex") when \<^verbatim>\<open>LIKE\<close> is given
  a pattern that is too long.
\<close>

datatype exn = OverflowError | OperationalError

datatype 'a outcome = Raises exn | Returns 'a

definition in_int64 :: "int \<Rightarrow> bool" where
  "in_int64 i = (- (2 ^ 63) \<le> i \<and> i < 2 ^ 63)"

subsection \<open>Text helpers of Python and SQLite\<close>

text \<open>\<^verbatim>\<open>str.isspace\<close> on a single character (code points below 256).\<close>

definition py_isspace :: "char \<Rightarrow> bool" where
  "py_isspace c = ((of_char c :: nat) \<in> {9, 10, 11, 12, 13, 28, 29, 30, 31, 32, 133, 160})"

text \<open>\<^verbatim>\<open>str.strip()\<close>.\<close>

definition strip :: "string \<Rightarrow> string" where
  "strip s = rev (dropWhile py_isspace (rev (dropWhile py_isspace s)))"

text \<open>\<^verbatim>\<open>str.split(sep)\<close> for a one-character separator: never returns the empty list.\<close>

fun split :: "char \<Rightarrow> string \<Rightarrow> string list" where
  "split sep [] = [[]]"
| "split sep (c # cs) =
     (if c = sep then [] # split sep cs
      else (case split sep cs of
              w # ws \<Rightarrow> (c # w) # ws
            | [] \<Rightarrow> [[c]]))"

text \<open>\<^verbatim>\<open>[tag.strip() for tag in tags.split(",") if tag.strip()]\<close> of \<^verbatim>\<open>add_note\<close>.\<close>

definition parse_tags :: "string \<Rightarrow> string list" where
  "parse_tags tags = map strip (filter (\<lambda>tag. strip tag \<noteq> []) (split (CHR '','') tags))"

text \<open>\<^verbatim>\<open>os.path.basename\<close> and \<^verbatim>\<open>os.path.join\<close> with a relative second part (POSIX).\<close>

definition basename :: "string \<Rightarrow> string" where
  "basename p = rev (takeWhile (\<lambda>c. c \<noteq> CHR ''/'') (rev p))"

definition path_join :: "string \<Rightarrow> string \<Rightarrow> string" where
  "path_join d f = d @ ''/'' @ f"

text \<open>
  \<^verbatim>\<open>json.dumps\<close> of a list of strings (default \<^verbatim>\<open>ensure_ascii=True\<close>, separator
  \<^verbatim>\<open>", "\<close>): the double quote and the backslash are escaped with a backslash, the five
  short escapes are used, every other character outside space..tilde becomes
  \<^verbatim>\<open>\u00xx\<close> in lower-case hexadecimal.
\<close>

definition hex_digit :: "nat \<Rightarrow> char" where
  "hex_digit k = ''0123456789abcdef'' ! (k mod 16)"

definition json_escape :: "char \<Rightarrow> string" where
  "json_escape c =
     (let k = (of_char c :: nat) in
      if k = 0x22 then [CHR 0x5C, CHR 0x22]
      else if k = 0x5C then [CHR 0x5C, CHR 0x5C]
      else if k = 0x0A then [CHR 0x5C, CHR ''n'']
      else if k = 0x0D then [CHR 0x5C, CHR ''r'']
      else if k = 0x09 then [CHR 0x5C, CHR ''t'']
      else if k = 0x08 then [CHR 0x5C, CHR ''b'']
      else if k = 0x0C then [CHR 0x5C, CHR ''f'']
      else if 0x20 \<le> k \<and> k \<le> 0x7E then [c]
      else [CHR 0x5C, CHR ''u'', CHR ''0'', CHR ''0'', hex_digit (k div 16), hex_digit k])"

definition json_string :: "string \<Rightarrow> string" where
  "json_string s = CHR 0x22 # concat (map json_escape s) @ [CHR 0x22]"

fun join :: "string \<Rightarrow> string list \<Rightarrow> string" where
  "join sep [] = []"
| "join sep [x] = x"
| "join sep (x # y # ys) = x @ sep @ join sep (y # ys)"

definition json_dumps :: "string list \<Rightarrow> string" where
  "json_dumps xs = ''['' @ join '', '' (map json_string xs) @ '']''"

text \<open>
  The \<^verbatim>\<open>LIKE\<close> operator of SQLite, pattern first. \<open>pattern_compare\<close> is the matching
  itself (\<^verbatim>\<open>patternCompare\<close> of SQLite): \<^verbatim>\<open>%\<close> matches any run of characters, \<^verbatim>\<open>_\<close>
  exactly one, any other character itself, with the ASCII letters compared without case
  (characters outside ASCII are compared as they are). The queries of the program give
  no \<^verbatim>\<open>ESCAPE\<close> character. \<open>sqlite_lower\<close> maps \<^verbatim>\<open>A\<close>..\<^verbatim>\<open>Z\<close> to \<^verbatim>\<open>a\<close>..\<^verbatim>\<open>z\<close> (it adds 32,
  which sets bit 5 of the code) and leaves every other character alone.
\<close>

definition sqlite_lower :: "char \<Rightarrow> char" where
  "sqlite_lower c =
     (if CHR ''A'' \<le> c \<and> c \<le> CHR ''Z''
      then (case c of Char b0 b1 b2 b3 b4 b5 b6 b7 \<Rightarrow> Char b0 b1 b2 b3 b4 True b6 b7)
      else c)"

fun pattern_compare :: "string \<Rightarrow> string \<Rightarrow> bool" where
  "pattern_compare [] s = (s = [])"
| "pattern_compare (p # ps) [] = (p = CHR ''%'' \<and> pattern_compare ps [])"
| "pattern_compare (p # ps) (c # cs) =
     (if p = CHR ''%'' then pattern_compare ps (c # cs) \<or> pattern_compare (p # ps) cs
      else (p = CHR ''_'' \<or> sqlite_lower p = sqlite_lower c) \<and> pattern_compare ps cs)"

text \<open>
  The SQL function reads both operands as C strings, so each ends at its first NUL
  character (\<open>c_string\<close>), and it refuses a pattern of more than
  \<^verbatim>\<open>SQLITE_MAX_LIKE_PATTERN_LENGTH\<close> (50000 by default) bytes, which are the bytes of the
  whole pattern in UTF-8: one for a character below 128, two for the others below 256.
\<close>

definition c_string :: "string \<Rightarrow> string" where
  "c_string s = takeWhile (\<lambda>c. c \<noteq> CHR 0x00) s"

definition utf8_length :: "string \<Rightarrow> int" where
  "utf8_length s = sum_list (map (\<lambda>c. if (of_char c :: int) < 128 then 1 else 2) s)"

definition like_pattern_limit :: int where
  "like_pattern_limit = 50000"

definition like :: "string \<Rightarrow> string \<Rightarrow> bool outcome" where
  "like pattern s =
     (if utf8_length pattern > like_pattern_limit then Raises OperationalError
      else Returns (pattern_compare (c_string pattern) (c_string s)))"

text \<open>\<^verbatim>\<open>a OR b\<close> where evaluating an operand may raise.\<close>

fun sql_or :: "bool outcome \<Rightarrow> bool outcome \<Rightarrow> bool outcome" where
  "sql_or (Raises e) b = Raises e"
| "sql_or (Returns True) b = Returns True"
| "sql_or (Returns False) b = b"

text \<open>\<^verbatim>\<open>ORDER BY key DESC\<close>: the rows by descending key, rows of equal key in their
  former order (SQL leaves the order of ties open).\<close>

fun insert_desc :: "('a \<Rightarrow> 'k::linorder) \<Rightarrow> 'a \<Rightarrow> 'a list \<Rightarrow> 'a list" where
  "insert_desc key x [] = [x]"
| "insert_desc key x (y # ys) =
     (if key y \<ge> key x then y # insert_desc key x ys else x # y # ys)"

definition order_by_desc :: "('a \<Rightarrow> 'k::linorder) \<Rightarrow> 'a list \<Rightarrow> 'a list" where
  "order_by_desc key xs = foldl (\<lambda>acc x. insert_desc key x acc) [] xs"

subsection \<open>Reading the tables\<close>

text \<open>\<^verbatim>\<open>SELECT * FROM notes WHERE id = ?\<close> followed by \<^verbatim>\<open>fetchone()\<close>.\<close>

definition find_note :: "db \<Rightarrow> int \<Rightarrow> note_row option" where
  "find_note db note_id = find (\<lambda>n. n_id n = note_id) (notes_tbl db)"

text \<open>The \<^verbatim>\<open>ratings\<close> and \<^verbatim>\<open>download_history\<close> rows of one note.\<close>

definition ratings_of :: "db \<Rightarrow> int \<Rightarrow> rating list" where
  "ratings_of db note_id = filter (\<lambda>r. r_note_id r = note_id) (ratings db)"

definition downloads_of :: "db \<Rightarrow> int \<Rightarrow> download list" where
  "downloads_of db note_id = filter (\<lambda>d. d_note_id d = note_id) (download_history db)"

text \<open>\<^verbatim>\<open>SELECT SUM(rating) FROM ratings WHERE note_id = ?\<close> and \<^verbatim>\<open>SELECT COUNT(*) ...\<close>.
  \<^verbatim>\<open>rate_note\<close> evaluates them right after it has written a row for that note, so the
  \<^verbatim>\<open>NULL\<close> that \<^verbatim>\<open>SUM\<close> gives on no rows does not arise there.\<close>

definition sum_ratings :: "db \<Rightarrow> int \<Rightarrow> int" where
  "sum_ratings db note_id = sum_list (map r_rating (ratings_of db note_id))"

definition count_ratings :: "db \<Rightarrow> int \<Rightarrow> int" where
  "count_ratings db note_id = int (length (ratings_of db note_id))"

subsection \<open>Start-up\<close>

text \<open>
  \<^verbatim>\<open>_hash_password\<close> is SHA-256 of \<^verbatim>\<open>hashlib\<close>; it is a parameter \<open>H\<close> of every function
  that calls it.
\<close>

text \<open>One \<^verbatim>\<open>INSERT INTO users (username, password, email, role)\<close>: the id is the next
  \<^verbatim>\<open>AUTOINCREMENT\<close> value, \<^verbatim>\<open>created_at\<close> the current timestamp.\<close>

definition insert_user :: "db \<Rightarrow> string \<Rightarrow> string \<Rightarrow> string \<Rightarrow> string \<Rightarrow> string \<Rightarrow> db" where
  "insert_user db username digest email role now =
     db\<lparr>users := users db @
            [\<lparr>u_id = users_seq db + 1, u_username = username, u_password = digest,
              u_email = email, u_role = role, u_created_at = now\<rparr>],
        users_seq := users_seq db + 1\<rparr>"

text \<open>One \<^verbatim>\<open>INSERT INTO notes (title, category, subject, description, uploader_id, tags,
  file_path, file_name, file_size)\<close>; the other columns take their defaults.\<close>

definition insert_note ::
  "db \<Rightarrow> string \<Rightarrow> string \<Rightarrow> string \<Rightarrow> string \<Rightarrow> int \<Rightarrow> string list \<Rightarrow> string \<Rightarrow> string \<Rightarrow> nat
     \<Rightarrow> string \<Rightarrow> db" where
  "insert_note db title category subject description uploader tags file_path file_name
     file_size now =
     db\<lparr>notes_tbl := notes_tbl db @
            [\<lparr>n_id = notes_seq db + 1, n_title = title, n_category = category,
              n_subject = subject, n_description = description, n_uploader_id = uploader,
              n_upload_date = now, n_downloads = 0, n_tags = tags, n_file_path = file_path,
              n_file_name = file_name, n_file_size = file_size, n_rating_sum = 0,
              n_rating_count = 0\<rparr>],
        notes_seq := notes_seq db + 1\<rparr>"

definition storage_dir :: string where
  "storage_dir = ''uploaded_files''"

text \<open>The tables as \<^verbatim>\<open>_init_database\<close> creates them on a fresh database file.\<close>

definition empty_db :: db where
  "empty_db = \<lparr>users = [], notes_tbl = [], download_history = [], ratings = [],
               users_seq = 0, notes_seq = 0, files = Map.empty, current_user = None\<rparr>"

text \<open>The \<^verbatim>\<open>demo_users\<close> (username, password, email, role) and the \<^verbatim>\<open>sample_notes\<close>
  (title, category, subject, description, uploader id, tags, file name) of
  \<^verbatim>\<open>_create_demo_data\<close>.\<close>

definition demo_users :: "(string \<times> string \<times> string \<times> string) list" where
  "demo_users =
     [(''admin'', ''admin123'', ''admin@university.edu'', ''admin''),
      (''student1'', ''pass123'', ''student1@university.edu'', ''student''),
      (''professor'', ''prof123'', ''professor@university.edu'', ''teacher'')]"

definition sample_notes ::
  "(string \<times> string \<times> string \<times> string \<times> int \<times> string list \<times> string) list" where
  "sample_notes =
     [(''Introduction to Python Programming'', ''Computer Science'', ''Programming'',
       ''Comprehensive guide covering Python basics, data structures, OOP, and best practices for beginners'',
       1, [''python'', ''programming'', ''basics'', ''oop''], ''intro_python.pdf''),
      (''Calculus I - Derivatives and Integrals'', ''Mathematics'', ''Calculus'',
       ''Complete notes on differential and integral calculus with solved examples and practice problems'',
       2, [''calculus'', ''derivatives'', ''integrals'', ''mathematics''], ''calculus_notes.pdf''),
      (''Database Management Systems'', ''Computer Science'', ''Databases'',
       ''SQL, normalization, transactions, indexing, and database design patterns'',
       1, [''database'', ''sql'', ''dbms'', ''normalization''], ''dbms_notes.pdf''),
      (''Organic Chemistry Reactions'', ''Chemistry'', ''Organic Chemistry'',
       ''Common organic reactions, mechanisms, and synthesis strategies'',
       3, [''chemistry'', ''organic'', ''reactions'', ''mechanisms''], ''organic_chem.pdf''),
      (''Data Structures and Algorithms'', ''Computer Science'', ''DSA'',
       ''Arrays, linked lists, trees, graphs, sorting, searching, and dynamic programming'',
       2, [''dsa'', ''algorithms'', ''data-structures'', ''programming''], ''dsa_notes.pdf'')]"

text \<open>The two loops of \<^verbatim>\<open>_create_demo_data\<close>. \<open>clock k\<close> is the timestamp the database
  reads at the \<open>k\<close>-th insert of the call.\<close>

fun add_demo_users ::
  "(string \<Rightarrow> string) \<Rightarrow> (nat \<Rightarrow> string) \<Rightarrow> nat \<Rightarrow> (string \<times> string \<times> string \<times> string) list
     \<Rightarrow> db \<Rightarrow> db" where
  "add_demo_users H clock k [] db = db"
| "add_demo_users H clock k ((username, password, email, role) # rest) db =
     add_demo_users H clock (Suc k) rest
       (insert_user db username (H password) email role (clock k))"

fun add_sample_notes ::
  "(nat \<Rightarrow> string) \<Rightarrow> nat
     \<Rightarrow> (string \<times> string \<times> string \<times> string \<times> int \<times> string list \<times> string) list \<Rightarrow> db \<Rightarrow> db" where
  "add_sample_notes clock k [] db = db"
| "add_sample_notes clock k
     ((title, category, subject, description, uploader, tags, file_name) # rest) db =
     (let file_path = path_join storage_dir file_name;
          content = ''Sample content for '' @ title @ [CHR 0x0A] @
                    ''This is a demo file created for the notes sharing system.'' @ [CHR 0x0A];
          db1 = db\<lparr>files := (files db)(file_path \<mapsto> content)\<rparr>
      in add_sample_notes clock (Suc k) rest
           (insert_note db1 title category subject description uploader tags file_path
              file_name (length content) (clock k)))"

definition create_demo_data :: "(string \<Rightarrow> string) \<Rightarrow> (nat \<Rightarrow> string) \<Rightarrow> db \<Rightarrow> db" where
  "create_demo_data H clock db =
     (if length (users db) > 0 then db
      else add_sample_notes clock (length demo_users) sample_notes
             (add_demo_users H clock 0 demo_users db))"

text \<open>\<^verbatim>\<open>NotesDatabase.__init__\<close> on an existing state (a restart of the process), and on
  a fresh database file.\<close>

definition startup :: "(string \<Rightarrow> string) \<Rightarrow> (nat \<Rightarrow> string) \<Rightarrow> db \<Rightarrow> db" where
  "startup H clock db = create_demo_data H clock (db\<lparr>current_user := None\<rparr>)"

definition initial :: "(string \<Rightarrow> string) \<Rightarrow> (nat \<Rightarrow> string) \<Rightarrow> db" where
  "initial H clock = startup H clock empty_db"

subsection \<open>Credentials\<close>

definition authenticate :: "(string \<Rightarrow> string) \<Rightarrow> db \<Rightarrow> string \<Rightarrow> string \<Rightarrow> db \<times> (failure + int)" where
  "authenticate H db username password =
     (case find (\<lambda>u. u_username u = username) (users db) of
        Some user \<Rightarrow>
          if u_password user = H password
          then (db\<lparr>current_user :=
                     Some \<lparr>s_id = u_id user, s_username = u_username user, s_role = u_role user\<rparr>\<rparr>,
                Inr (u_id user))
          else (db, Inl InvalidCredentials)
      | None \<Rightarrow> (db, Inl InvalidCredentials))"

text \<open>The handler \<^verbatim>\<open>logout\<close>.\<close>

definition logout :: "db \<Rightarrow> db" where
  "logout db = db\<lparr>current_user := None\<rparr>"

text \<open>\<^verbatim>\<open>register_user\<close>; the \<^verbatim>\<open>IntegrityError\<close> branch is the \<^verbatim>\<open>UNIQUE\<close> constraint on
  \<^verbatim>\<open>username\<close>.\<close>

definition register_user ::
  "(string \<Rightarrow> string) \<Rightarrow> db \<Rightarrow> string \<Rightarrow> string \<Rightarrow> string \<Rightarrow> string \<Rightarrow> db \<times> (failure + unit)" where
  "register_user H db username password email now =
     (if length username < 3 then (db, Inl UsernameTooShort)
      else if length password < 6 then (db, Inl PasswordTooShort)
      else if username \<in> set (map u_username (users db)) then (db, Inl UsernameExists)
      else (insert_user db username (H password) email ''student'' now, Inr ()))"

subsection \<open>Catalog\<close>

text \<open>
  \<^verbatim>\<open>add_note\<close>. \<open>file\<close> is the uploaded file object or \<^verbatim>\<open>None\<close>: its \<^verbatim>\<open>name\<close> (a path)
  and the content \<^verbatim>\<open>shutil.copy\<close> reads from that path, \<open>None\<close> when the copy raises,
  which the \<^verbatim>\<open>except\<close> clause turns into the upload error. \<open>stamp\<close> is
  \<^verbatim>\<open>datetime.now().strftime("%Y%m%d_%H%M%S")\<close> and \<open>now\<close> the database timestamp.
\<close>

definition add_note ::
  "db \<Rightarrow> string \<Rightarrow> string \<Rightarrow> string \<Rightarrow> string \<Rightarrow> string \<Rightarrow> (string \<times> string option) option
     \<Rightarrow> string \<Rightarrow> string \<Rightarrow> db \<times> (failure + unit)" where
  "add_note db title category subject description tags file stamp now =
     (case current_user db of
        None \<Rightarrow> (db, Inl PleaseLogin)
      | Some cu \<Rightarrow>
          (case file of
             None \<Rightarrow> (db, Inl NoFile)
           | Some (name, source) \<Rightarrow>
               if title = [] \<or> category = [] \<or> subject = [] then (db, Inl MissingFields)
               else
                 (let file_name = basename name;
                      unique_file_name = stamp @ ''_'' @ file_name;
                      file_path = path_join storage_dir unique_file_name
                  in case source of
                       None \<Rightarrow> (db, Inl UploadError)
                     | Some content \<Rightarrow>
                         (insert_note (db\<lparr>files := (files db)(file_path \<mapsto> content)\<rparr>)
                            title category subject description (s_id cu) (parse_tags tags)
                            file_path file_name (length content) now,
                          Inr ()))))"

text \<open>\<^verbatim>\<open>get_all_categories\<close>: \<^verbatim>\<open>SELECT DISTINCT category FROM notes ORDER BY category\<close>.\<close>

definition get_all_categories :: "db \<Rightarrow> string list" where
  "get_all_categories db = ''All'' # sort (remdups (map n_category (notes_tbl db)))"

text \<open>
  \<^verbatim>\<open>delete_note\<close>. \<open>rm_ok\<close> tells whether \<^verbatim>\<open>os.remove\<close> succeeds on an existing file; its
  exception is swallowed by the bare \<^verbatim>\<open>except\<close>. The \<^verbatim>\<open>SELECT\<close> binds \<^verbatim>\<open>note_id\<close>: an id
  outside the 64-bit range, which no row has, makes it raise \<^verbatim>\<open>OverflowError\<close>, and no
  handler of the method or of its caller catches that.
\<close>

definition delete_note :: "db \<Rightarrow> int \<Rightarrow> bool \<Rightarrow> db \<times> (failure + unit) outcome" where
  "delete_note db note_id rm_ok =
     (case current_user db of
        None \<Rightarrow> (db, Returns (Inl PleaseLogin))
      | Some cu \<Rightarrow>
          (case find_note db note_id of
             None \<Rightarrow> if in_int64 note_id then (db, Returns (Inl NoteNotFound))
                     else (db, Raises OverflowError)
           | Some note \<Rightarrow>
               if n_uploader_id note \<noteq> s_id cu \<and> s_role cu \<noteq> ''admin''
               then (db, Returns (Inl NoPermission))
               else
                 (let fs = (if files db (n_file_path note) \<noteq> None \<and> rm_ok
                            then (files db)(n_file_path note := None) else files db)
                  in (db\<lparr>notes_tbl := filter (\<lambda>n. n_id n \<noteq> note_id) (notes_tbl db),
                         download_history :=
                           filter (\<lambda>d. d_note_id d \<noteq> note_id) (download_history db),
                         ratings := filter (\<lambda>r. r_note_id r \<noteq> note_id) (ratings db),
                         files := fs\<rparr>,
                      Returns (Inr ())))))"

subsection \<open>Download ledger\<close>

text \<open>\<^verbatim>\<open>download_note\<close>; on success the returned value is the row's \<^verbatim>\<open>file_path\<close>. The
  \<^verbatim>\<open>SELECT\<close> binds \<^verbatim>\<open>note_id\<close>, and the \<^verbatim>\<open>OverflowError\<close> of an id outside the 64-bit
  range, which no row has, leaves the method before anything is written.\<close>

definition download_note :: "db \<Rightarrow> int \<Rightarrow> string \<Rightarrow> db \<times> (failure + string) outcome" where
  "download_note db note_id now =
     (case current_user db of
        None \<Rightarrow> (db, Returns (Inl PleaseLogin))
      | Some cu \<Rightarrow>
          (case find_note db note_id of
             None \<Rightarrow> if in_int64 note_id then (db, Returns (Inl NoteNotFound))
                     else (db, Raises OverflowError)
           | Some note \<Rightarrow>
               (db\<lparr>notes_tbl :=
                      map (\<lambda>n. if n_id n = note_id then n\<lparr>n_downloads := n_downloads n + 1\<rparr>
                                else n) (notes_tbl db),
                    download_history := download_history db @
                      [\<lparr>d_note_id = note_id, d_user_id = s_id cu, d_download_date = now\<rparr>]\<rparr>,
                Returns (Inr (n_file_path note)))))"

subsection \<open>Rating ledger\<close>

text \<open>\<^verbatim>\<open>INSERT INTO ratings ... ON CONFLICT(note_id, user_id) DO UPDATE SET rating = ?,
  review = ?\<close>.\<close>

definition upsert_rating :: "rating list \<Rightarrow> int \<Rightarrow> int \<Rightarrow> int \<Rightarrow> string \<Rightarrow> string \<Rightarrow> rating list" where
  "upsert_rating rs note_id user_id val review now =
     (if filter (\<lambda>r. r_note_id r = note_id \<and> r_user_id r = user_id) rs \<noteq> []
      then map (\<lambda>r. if r_note_id r = note_id \<and> r_user_id r = user_id
                     then r\<lparr>r_rating := val, r_review := review\<rparr> else r) rs
      else rs @ [\<lparr>r_note_id = note_id, r_user_id = user_id, r_rating = val,
                   r_review = review, r_created_at = now\<rparr>])"

text \<open>\<^verbatim>\<open>rate_note\<close>: the upsert, then the \<^verbatim>\<open>UPDATE notes SET rating_sum = (SELECT SUM ...),
  rating_count = (SELECT COUNT ...) WHERE id = ?\<close>. Both sit in the \<^verbatim>\<open>try\<close> block: the
  \<^verbatim>\<open>OverflowError\<close> that the upsert raises when it binds an id outside the 64-bit range is
  caught and returned as the error tuple, with nothing written.\<close>

definition rate_note :: "db \<Rightarrow> int \<Rightarrow> int \<Rightarrow> string \<Rightarrow> string \<Rightarrow> db \<times> (failure + unit)" where
  "rate_note db note_id val review now =
     (case current_user db of
        None \<Rightarrow> (db, Inl PleaseLogin)
      | Some cu \<Rightarrow>
          if val < 1 \<or> val > 5 then (db, Inl RatingOutOfRange)
          else if \<not> in_int64 note_id then (db, Inl RatingError)
          else
            (let db1 = db\<lparr>ratings :=
                            upsert_rating (ratings db) note_id (s_id cu) val review now\<rparr>
             in (db1\<lparr>notes_tbl :=
                       map (\<lambda>n. if n_id n = note_id
                                 then n\<lparr>n_rating_sum := sum_ratings db1 note_id,
                                        n_rating_count := count_ratings db1 note_id\<rparr>
                                 else n) (notes_tbl db1)\<rparr>,
                 Inr ())))"

subsection \<open>Query engine\<close>

text \<open>
  The dictionaries \<^verbatim>\<open>search_notes\<close> returns. \<^verbatim>\<open>avg_rating\<close> is a floating-point number
  (or the integer 0); its type \<open>'f\<close> and the two operations that produce it are
  parameters: \<open>fdiv\<close> is \<^verbatim>\<open>CAST(rating_sum AS FLOAT) / rating_count\<close> and \<open>round1\<close> is
  \<^verbatim>\<open>round(x, 1)\<close>.
\<close>

record 'f note_view =
  v_id :: int
  v_title :: string
  v_category :: string
  v_subject :: string
  v_description :: string
  v_uploader_name :: string
  v_upload_date :: string
  v_downloads :: int
  v_tags :: "string list"
  v_file_path :: string
  v_file_name :: string
  v_file_size :: nat
  v_avg_rating :: 'f

text \<open>The column \<^verbatim>\<open>avg_rating\<close> of the query.\<close>

definition avg_rating :: "(int \<Rightarrow> int \<Rightarrow> 'f) \<Rightarrow> note_row \<Rightarrow> 'f::{zero,linorder}" where
  "avg_rating fdiv n =
     (if n_rating_count n > 0 then fdiv (n_rating_sum n) (n_rating_count n) else 0)"

text \<open>\<^verbatim>\<open>FROM notes n JOIN users u ON n.uploader_id = u.id\<close>.\<close>

definition join_users :: "db \<Rightarrow> (note_row \<times> user) list" where
  "join_users db = [(n, u). n \<leftarrow> notes_tbl db, u \<leftarrow> users db, n_uploader_id n = u_id u]"

text \<open>The text filter: the four \<^verbatim>\<open>LIKE\<close> tests against \<^verbatim>\<open>f"%{query}%"\<close>.\<close>

definition text_filter :: "string \<Rightarrow> note_row \<Rightarrow> bool outcome" where
  "text_filter query n =
     (let search_term = ''%'' @ query @ ''%'' in
      sql_or (like search_term (n_title n))
        (sql_or (like search_term (n_description n))
           (sql_or (like search_term (n_subject n))
              (like search_term (json_dumps (n_tags n))))))"

definition to_view :: "(int \<Rightarrow> int \<Rightarrow> 'f) \<Rightarrow> ('f \<Rightarrow> 'f) \<Rightarrow> note_row \<times> user \<Rightarrow> ('f::{zero,linorder}) note_view" where
  "to_view fdiv round1 row =
     (case row of (n, u) \<Rightarrow>
        \<lparr>v_id = n_id n, v_title = n_title n, v_category = n_category n,
         v_subject = n_subject n, v_description = n_description n,
         v_uploader_name = u_username u, v_upload_date = n_upload_date n,
         v_downloads = n_downloads n, v_tags = n_tags n, v_file_path = n_file_path n,
         v_file_name = n_file_name n, v_file_size = n_file_size n,
         v_avg_rating = (if n_rating_count n > 0 then round1 (avg_rating fdiv n) else 0)\<rparr>)"

text \<open>The first exception among the outcomes, if there is one.\<close>

fun first_raise :: "'a outcome list \<Rightarrow> exn option" where
  "first_raise [] = None"
| "first_raise (Raises e # rs) = Some e"
| "first_raise (Returns x # rs) = first_raise rs"

text \<open>\<^verbatim>\<open>search_notes\<close>: the join, the optional text filter, the optional category filter,
  the optional ordering, then one dictionary per row. The database scans \<^verbatim>\<open>notes\<close> and
  tests the text filter on every row it reads, before the category test and before it
  looks the uploader up; the exception of a \<^verbatim>\<open>LIKE\<close> leaves the method.\<close>

definition search_notes ::
  "(int \<Rightarrow> int \<Rightarrow> 'f) \<Rightarrow> ('f \<Rightarrow> 'f) \<Rightarrow> db \<Rightarrow> string \<Rightarrow> string \<Rightarrow> string
     \<Rightarrow> ('f::{zero,linorder}) note_view list outcome" where
  "search_notes fdiv round1 db query category sort_by =
     (case (if query \<noteq> [] then first_raise (map (text_filter query) (notes_tbl db)) else None) of
        Some e \<Rightarrow> Raises e
      | None \<Rightarrow>
          (let rows0 = join_users db;
               rows1 = (if query \<noteq> []
                        then filter (\<lambda>(n, u). text_filter query n = Returns True) rows0
                        else rows0);
               rows2 = (if category \<noteq> ''All''
                        then filter (\<lambda>(n, u). n_category n = category) rows1
                        else rows1);
               rows3 = (if sort_by = ''recent''
                        then order_by_desc (\<lambda>(n, u). n_upload_date n) rows2
                        else if sort_by = ''popular''
                        then order_by_desc (\<lambda>(n, u). n_downloads n) rows2
                        else if sort_by = ''rating''
                        then order_by_desc (\<lambda>(n, u). avg_rating fdiv n) rows2
                        else rows2)
           in Returns (map (to_view fdiv round1) rows3)))"

subsection \<open>Runs of the program\<close>

text \<open>One call of a method (or a restart of the process), with what it reads from its
  environment.\<close>

datatype event =
    Authenticate string string
  | Logout
  | Restart "nat \<Rightarrow> string"
  | Register string string string string
  | AddNote string string string string string "(string \<times> string option) option" string string
  | Download int string
  | Rate int int string string
  | Delete int bool

fun step :: "(string \<Rightarrow> string) \<Rightarrow> db \<Rightarrow> event \<Rightarrow> db" where
  "step H db (Authenticate username password) = fst (authenticate H db username password)"
| "step H db Logout = logout db"
| "step H db (Restart clock) = startup H clock db"
| "step H db (Register username password email now) =
     fst (register_user H db username password email now)"
| "step H db (AddNote title category subject description tags file stamp now) =
     fst (add_note db title category subject description tags file stamp now)"
| "step H db (Download note_id now) = fst (download_note db note_id now)"
| "step H db (Rate note_id val review now) = fst (rate_note db note_id val review now)"
| "step H db (Delete note_id rm_ok) = fst (delete_note db note_id rm_ok)"

text \<open>The states the program reaches from a fresh database file.\<close>

inductive reachable :: "(string \<Rightarrow> string) \<Rightarrow> db \<Rightarrow> bool" for H :: "string \<Rightarrow> string" where
  reachable_initial: "reachable H (initial H clock)"
| reachable_step: "reachable H db \<Longrightarrow> reachable H (step H db e)"

text \<open>A run: the events in order.\<close>

definition run :: "(string \<Rightarrow> string) \<Rightarrow> db \<Rightarrow> event list \<Rightarrow> db" where
  "run H db es = foldl (step H) db es"

section \<open>Properties of the specification\<close>

text \<open>The recompute invariant for one note: the denormalized columns agree with the
  \<^verbatim>\<open>ratings\<close> rows of that note.\<close>

definition aggregates_ok :: "db \<Rightarrow> note_row \<Rightarrow> bool" where
  "aggregates_ok db n =
     (n_rating_sum n = sum_ratings db (n_id n) \<and> n_rating_count n = count_ratings db (n_id n))"

text \<open>The text filter in the words of the specification: the text occurs, without
  regard to case, as a substring of the title, the description, the subject or the
  serialized tag list. \<open>unicode_lower\<close> is the lower-casing of the characters the model
  has (\<^verbatim>\<open>str.lower\<close> on code points below 256): the letters \<^verbatim>\<open>A\<close>..\<^verbatim>\<open>Z\<close> and the
  accented capitals from code 192 to 222 (215, the multiplication sign, is no letter)
  move up by 32.\<close>

definition unicode_lower :: "char \<Rightarrow> char" where
  "unicode_lower c =
     (let k = (of_char c :: nat) in
      if (65 \<le> k \<and> k \<le> 90) \<or> (192 \<le> k \<and> k \<le> 222 \<and> k \<noteq> 215) then char_of (k + 32)
      else c)"

definition ci_substring :: "string \<Rightarrow> string \<Rightarrow> bool" where
  "ci_substring q s = sublist (map unicode_lower q) (map unicode_lower s)"

definition spec_text_match :: "string \<Rightarrow> note_row \<Rightarrow> bool" where
  "spec_text_match query n =
     (ci_substring query (n_title n) \<or> ci_substring query (n_description n) \<or>
      ci_substring query (n_subject n) \<or> ci_substring query (json_dumps (n_tags n)))"

text \<open>The same with only the ASCII letters compared without case, as \<^verbatim>\<open>LIKE\<close> compares
  them.\<close>

definition ascii_ci_substring :: "string \<Rightarrow> string \<Rightarrow> bool" where
  "ascii_ci_substring q s = sublist (map sqlite_lower q) (map sqlite_lower s)"

definition ascii_text_match :: "string \<Rightarrow> note_row \<Rightarrow> bool" where
  "ascii_text_match query n =
     (ascii_ci_substring query (n_title n) \<or> ascii_ci_substring query (n_description n) \<or>
      ascii_ci_substring query (n_subject n) \<or>
      ascii_ci_substring query (json_dumps (n_tags n)))"

text \<open>The constraints the schema declares and SQLite enforces: the primary keys, and
  \<^verbatim>\<open>UNIQUE(note_id, user_id)\<close> on \<^verbatim>\<open>ratings\<close>.\<close>

definition ratings_unique :: "db \<Rightarrow> bool" where
  "ratings_unique db = distinct (map (\<lambda>r. (r_note_id r, r_user_id r)) (ratings db))"

text \<open>What every reachable state satisfies: the primary keys are distinct and at most
  the \<^verbatim>\<open>AUTOINCREMENT\<close> counter of their table, there is a user, the uploader of every
  note and the user of the session are users, and \<^verbatim>\<open>ratings\<close> obeys its \<^verbatim>\<open>UNIQUE\<close>
  constraint.\<close>

definition store_ok :: "db \<Rightarrow> bool" where
  "store_ok db =
     (distinct (map u_id (users db)) \<and> users db \<noteq> [] \<and>
      list_all (\<lambda>u. u_id u \<le> users_seq db) (users db) \<and>
      list_all (\<lambda>n. n_uploader_id n \<in> set (map u_id (users db))) (notes_tbl db) \<and>
      (case current_user db of None \<Rightarrow> True
       | Some cu \<Rightarrow> s_id cu \<in> set (map u_id (users db))) \<and>
      distinct (map n_id (notes_tbl db)) \<and>
      list_all (\<lambda>n. n_id n \<le> notes_seq db) (notes_tbl db) \<and>
      ratings_unique db)"

text \<open>The id \<open>i\<close> has been handed out, and a note of that id, if there is one, has its
  aggregates in agreement with the \<^verbatim>\<open>ratings\<close> table.\<close>

definition note_synced :: "db \<Rightarrow> int \<Rightarrow> bool" where
  "note_synced db i =
     (i \<le> notes_seq db \<and>
      list_all (\<lambda>n. n_id n = i \<longrightarrow> aggregates_ok db n) (notes_tbl db))"

section \<open>Concrete runs\<close>

text \<open>A fresh installation: a stand-in for the digest and a clock that stands still
  during start-up.\<close>

definition toy_digest :: "string \<Rightarrow> string" where
  "toy_digest password = rev password"

definition demo_clock :: "nat \<Rightarrow> string" where
  "demo_clock k = ''2024-01-01 00:00:00''"

definition demo_db :: db where
  "demo_db = initial toy_digest demo_clock"

text \<open>The demo user \<^verbatim>\<open>student1\<close> (id 2) has logged in.\<close>

definition student_db :: db where
  "student_db = fst (authenticate toy_digest demo_db ''student1'' ''pass123'')"

text \<open>\<^verbatim>\<open>student1\<close> logs in, rates note 2 (their own upload) and downloads it.\<close>

definition busy_db :: db where
  "busy_db = run toy_digest demo_db
     [Authenticate ''student1'' ''pass123'',
      Rate 2 4 ''clear'' ''2024-01-02 09:00:00'',
      Download 2 ''2024-01-02 09:05:00'']"

text \<open>Stand-ins for the two floating-point operations of \<^verbatim>\<open>search_notes\<close>: the exact
  quotient, and rounding to the nearest tenth.\<close>

text \<open>The list a search returned, for reading the result of a concrete search (empty
  when the search raised).\<close>

fun returned :: "'a list outcome \<Rightarrow> 'a list" where
  "returned (Returns xs) = xs"
| "returned (Raises e) = []"

definition exact_div :: "int \<Rightarrow> int \<Rightarrow> rat" where
  "exact_div a b = of_int a / of_int b"

definition round_tenth :: "rat \<Rightarrow> rat" where
  "round_tenth x = of_int (round (10 * x)) / 10"

text \<open>\<^verbatim>\<open>student1\<close> rates the id 6 while the catalog ends at id 5, then uploads a note, which
  gets the id 6; \<open>orphan_db\<close> is the state after one more rating, of note 1.\<close>

definition orphan_before :: db where
  "orphan_before = run toy_digest demo_db
     [Authenticate ''student1'' ''pass123'',
      Rate 6 5 [] ''2024-01-02 10:00:00'',
      AddNote ''Linear Algebra'' ''Mathematics'' ''Algebra'' ''Vector spaces and maps''
        ''linear, algebra'' (Some (''/tmp/gradio/linear.pdf'', Some ''%PDF-1.4''))
        ''20240102_101500'' ''2024-01-02 10:15:00'']"

definition orphan_db :: db where
  "orphan_db = fst (rate_note orphan_before 1 3 [] ''2024-01-02 10:20:00'')"

text \<open>\<^verbatim>\<open>student1\<close> has rated note 1 with 5.\<close>

definition rated_db :: db where
  "rated_db = fst (rate_note student_db 1 5 ''great'' ''2024-01-02 09:00:00'')"

text \<open>After \<open>rated_db\<close>: \<^verbatim>\<open>student1\<close> downloads note 1, \<^verbatim>\<open>admin\<close> logs in and rates note 1
  with 4, and \<^verbatim>\<open>student1\<close> logs in again.\<close>

definition rerate_db :: db where
  "rerate_db = run toy_digest rated_db
     [Download 1 ''2024-01-02 09:30:00'',
      Authenticate ''admin'' ''admin123'',
      Rate 1 4 ''solid'' ''2024-01-02 11:00:00'',
      Authenticate ''student1'' ''pass123'']"

text \<open>\<^verbatim>\<open>student1\<close> uploads two more notes: note 6 with the title \<^verbatim>\<open>ecole\<close> written with
  an acute accent on its first letter (the character of code 233), and note 7 whose
  title is \<^verbatim>\<open>a\<close>, a NUL character, \<^verbatim>\<open>b\<close>.\<close>

definition odd_db :: db where
  "odd_db = run toy_digest demo_db
     [Authenticate ''student1'' ''pass123'',
      AddNote [CHR 0xE9, CHR ''c'', CHR ''o'', CHR ''l'', CHR ''e''] ''Languages'' ''French''
        ''Vocabulary'' ''french'' (Some (''/tmp/gradio/ecole.pdf'', Some ''%PDF-1.4''))
        ''20240103_090000'' ''2024-01-03 09:00:00'',
      AddNote [CHR ''a'', CHR 0x00, CHR ''b''] ''Misc'' ''Test'' ''none'' []
        (Some (''/tmp/gradio/x.txt'', Some ''x'')) ''20240103_091000'' ''2024-01-03 09:10:00'']"

text \<open>A search text of 49999 letters, which makes a pattern of 50001 bytes, and the
  state after \<^verbatim>\<open>student1\<close> has uploaded a note (it gets the id 6) with that text as its
  title.\<close>

definition long_text :: string where
  "long_text = replicate 49999 (CHR ''a'')"

definition long_db :: db where
  "long_db = fst (add_note student_db long_text ''Misc'' ''Test'' ''none'' []
     (Some (''/tmp/gradio/x.txt'', Some ''x'')) ''20240103_092000'' ''2024-01-03 09:20:00'')"

section \<open>Evaluating the concrete runs\<close>

lemma demo_db_users:
  "users demo_db =
     [\<lparr>u_id = 1, u_username = ''admin'', u_password = ''321nimda'',
       u_email = ''admin@university.edu'', u_role = ''admin'',
       u_created_at = ''2024-01-01 00:00:00''\<rparr>,
      \<lparr>u_id = 2, u_username = ''student1'', u_password = ''321ssap'',
       u_email = ''student1@university.edu'', u_role = ''student'',
       u_created_at = ''2024-01-01 00:00:00''\<rparr>,
      \<lparr>u_id = 3, u_username = ''professor'', u_password = ''321forp'',
       u_email = ''professor@university.edu'', u_role = ''teacher'',
       u_created_at = ''2024-01-01 00:00:00''\<rparr>]"
  by code_simp

lemma demo_db_session: "current_user demo_db = None"
  by code_simp

lemma student_db_eq:
  "student_db = demo_db\<lparr>current_user :=
     Some \<lparr>s_id = 2, s_username = ''student1'', s_role = ''student''\<rparr>\<rparr>"
  by (simp add: student_db_def authenticate_def demo_db_users toy_digest_def)

lemma student_db_session:
  "current_user student_db = Some \<lparr>s_id = 2, s_username = ''student1'', s_role = ''student''\<rparr>"
  by (simp add: student_db_eq)

lemma student_db_note_1:
  "find_note student_db 1 = Some
     \<lparr>n_id = 1, n_title = ''Introduction to Python Programming'',
      n_category = ''Computer Science'', n_subject = ''Programming'',
      n_description = ''Comprehensive guide covering Python basics, data structures, OOP, and best practices for beginners'',
      n_uploader_id = 1, n_upload_date = ''2024-01-01 00:00:00'', n_downloads = 0,
      n_tags = [''python'', ''programming'', ''basics'', ''oop''],
      n_file_path = ''uploaded_files/intro_python.pdf'', n_file_name = ''intro_python.pdf'',
      n_file_size = 112, n_rating_sum = 0, n_rating_count = 0\<rparr>"
  by code_simp

lemma student_db_note_999: "find_note student_db 999 = None"
  by code_simp

lemma student_db_history: "download_history student_db = []"
  by code_simp

lemma busy_db_session:
  "current_user busy_db = Some \<lparr>s_id = 2, s_username = ''student1'', s_role = ''student''\<rparr>"
  by code_simp

lemma busy_db_note_2:
  "map_option (\<lambda>n. (n_uploader_id n, n_downloads n, n_rating_sum n, n_rating_count n))
     (find_note busy_db 2) = Some (2, 1, 4, 1)"
  by code_simp

lemma busy_db_ledgers:
  "ratings_of busy_db 2 =
     [\<lparr>r_note_id = 2, r_user_id = 2, r_rating = 4, r_review = ''clear'',
       r_created_at = ''2024-01-02 09:00:00''\<rparr>]"
  "downloads_of busy_db 2 =
     [\<lparr>d_note_id = 2, d_user_id = 2, d_download_date = ''2024-01-02 09:05:00''\<rparr>]"
  by code_simp+

lemma student_db_aggregates: "list_all (aggregates_ok student_db) (notes_tbl student_db)"
  by code_simp

lemma rated_db_note_1:
  "map_option n_rating_sum (find_note rated_db 1) = Some 5"
  "map_option n_rating_count (find_note rated_db 1) = Some 1"
  by code_simp+

lemma rated_db_session:
  "current_user rated_db = Some \<lparr>s_id = 2, s_username = ''student1'', s_role = ''student''\<rparr>"
  by code_simp

lemma rated_db_unique: "ratings_unique rated_db"
  by code_simp

lemma rated_db_row:
  "find (\<lambda>r. r_note_id r = 1 \<and> r_user_id r = 2) (ratings rated_db) =
     Some \<lparr>r_note_id = 1, r_user_id = 2, r_rating = 5, r_review = ''great'',
           r_created_at = ''2024-01-02 09:00:00''\<rparr>"
  by code_simp

lemma rated_db_found: "find_note rated_db 1 = Some (the (find_note rated_db 1))"
  using rated_db_note_1(1) by (cases "find_note rated_db 1") simp_all

lemma rated_db_aggregates: "aggregates_ok rated_db (the (find_note rated_db 1))"
  by code_simp

lemma rated_db_ledger: "count_ratings rated_db 1 = 1" "sum_ratings rated_db 1 = 5"
  by code_simp+

lemma rerate_db_facts:
  "current_user rerate_db = Some \<lparr>s_id = 2, s_username = ''student1'', s_role = ''student''\<rparr>"
  "find (\<lambda>r. r_note_id r = 1 \<and> r_user_id r = 2) (ratings rerate_db) =
     Some \<lparr>r_note_id = 1, r_user_id = 2, r_rating = 5, r_review = ''great'',
           r_created_at = ''2024-01-02 09:00:00''\<rparr>"
  "map_option n_rating_sum (find_note rerate_db 1) = Some 9"
  "map_option n_rating_count (find_note rerate_db 1) = Some 2"
  "length (ratings rerate_db) = 2"
  by code_simp+

lemma orphan_before_search:
  "map v_id (returned (search_notes exact_div round_tenth orphan_before [] ''All'' ''recent'')) =
     [6, 1, 2, 3, 4, 5]"
  "map v_upload_date
     (returned (search_notes exact_div round_tenth orphan_before [] ''All'' ''recent'')) =
     [''2024-01-02 10:15:00'', ''2024-01-01 00:00:00'', ''2024-01-01 00:00:00'',
      ''2024-01-01 00:00:00'', ''2024-01-01 00:00:00'', ''2024-01-01 00:00:00'']"
  "map n_id (notes_tbl orphan_before) = [1, 2, 3, 4, 5, 6]"
  by code_simp+

section \<open>Lemmas on the tables\<close>

lemma find_map_same_id:
  assumes "\<And>n. n_id (f n) = n_id n"
  shows "find (\<lambda>n. n_id n = i) (map (\<lambda>n. if n_id n = i then f n else n) ns) =
         map_option f (find (\<lambda>n. n_id n = i) ns)"
  using assms by (induction ns) auto

lemma store_ok_iff:
  "store_ok db \<longleftrightarrow>
     distinct (map u_id (users db)) \<and> users db \<noteq> [] \<and>
     (\<forall>u \<in> set (users db). u_id u \<le> users_seq db) \<and>
     (\<forall>n \<in> set (notes_tbl db). n_uploader_id n \<in> u_id ` set (users db)) \<and>
     (\<forall>cu. current_user db = Some cu \<longrightarrow> s_id cu \<in> u_id ` set (users db)) \<and>
     distinct (map n_id (notes_tbl db)) \<and>
     (\<forall>n \<in> set (notes_tbl db). n_id n \<le> notes_seq db) \<and>
     distinct (map (\<lambda>r. (r_note_id r, r_user_id r)) (ratings db))"
  by (auto simp: store_ok_def ratings_unique_def list_all_iff split: option.splits)

section \<open>The \<^verbatim>\<open>LIKE\<close> operator\<close>

lemma like_percent_all: "pattern_compare ''%'' s"
  by (induction s) auto

lemma like_percent_iff:
  "pattern_compare (CHR ''%'' # ps) s \<longleftrightarrow> (\<exists>pre post. s = pre @ post \<and> pattern_compare ps post)"
proof (induction s)
  case Nil
  then show ?case by (cases ps) auto
next
  case (Cons c cs)
  show ?case
  proof
    assume "pattern_compare (CHR ''%'' # ps) (c # cs)"
    then consider "pattern_compare ps (c # cs)" | "pattern_compare (CHR ''%'' # ps) cs" by auto
    then show "\<exists>pre post. c # cs = pre @ post \<and> pattern_compare ps post"
    proof cases
      case 1
      then have "c # cs = [] @ (c # cs) \<and> pattern_compare ps (c # cs)" by simp
      then show ?thesis by blast
    next
      case 2
      with Cons obtain pre post where "cs = pre @ post" "pattern_compare ps post" by auto
      then have "c # cs = (c # pre) @ post \<and> pattern_compare ps post" by simp
      then show ?thesis by blast
    qed
  next
    assume "\<exists>pre post. c # cs = pre @ post \<and> pattern_compare ps post"
    then obtain pre post where pp: "c # cs = pre @ post" "pattern_compare ps post" by auto
    show "pattern_compare (CHR ''%'' # ps) (c # cs)"
    proof (cases pre)
      case Nil
      with pp show ?thesis by auto
    next
      case (Cons a pre')
      with pp have "cs = pre' @ post" by auto
      with pp Cons.IH have "pattern_compare (CHR ''%'' # ps) cs" by auto
      then show ?thesis by auto
    qed
  qed
qed

lemma like_plain_prefix:
  assumes "CHR ''%'' \<notin> set q" "CHR ''_'' \<notin> set q"
  shows "pattern_compare (q @ ps) s \<longleftrightarrow>
         (\<exists>mid rest. s = mid @ rest \<and> map sqlite_lower mid = map sqlite_lower q \<and> pattern_compare ps rest)"
  using assms
proof (induction q arbitrary: s)
  case Nil
  then show ?case by auto
next
  case (Cons p q)
  then have p: "p \<noteq> CHR ''%''" "p \<noteq> CHR ''_''" and q: "CHR ''%'' \<notin> set q" "CHR ''_'' \<notin> set q"
    by auto
  show ?case
  proof (cases s)
    case Nil
    with p show ?thesis by auto
  next
    case (Cons c cs)
    have "pattern_compare ((p # q) @ ps) (c # cs) \<longleftrightarrow> sqlite_lower p = sqlite_lower c \<and> pattern_compare (q @ ps) cs"
      using p by simp
    also have "\<dots> \<longleftrightarrow> sqlite_lower p = sqlite_lower c \<and>
        (\<exists>mid rest. cs = mid @ rest \<and> map sqlite_lower mid = map sqlite_lower q \<and> pattern_compare ps rest)"
      using Cons.IH [OF q] by simp
    also have "\<dots> \<longleftrightarrow> (\<exists>mid rest. c # cs = mid @ rest \<and>
        map sqlite_lower mid = map sqlite_lower (p # q) \<and> pattern_compare ps rest)"
    proof
      assume "sqlite_lower p = sqlite_lower c \<and>
        (\<exists>mid rest. cs = mid @ rest \<and> map sqlite_lower mid = map sqlite_lower q \<and> pattern_compare ps rest)"
      then obtain mid rest where "sqlite_lower p = sqlite_lower c" "cs = mid @ rest"
        "map sqlite_lower mid = map sqlite_lower q" "pattern_compare ps rest" by blast
      then have "c # cs = (c # mid) @ rest \<and>
        map sqlite_lower (c # mid) = map sqlite_lower (p # q) \<and> pattern_compare ps rest" by simp
      then show "\<exists>mid rest. c # cs = mid @ rest \<and>
        map sqlite_lower mid = map sqlite_lower (p # q) \<and> pattern_compare ps rest" by blast
    next
      assume "\<exists>mid rest. c # cs = mid @ rest \<and>
        map sqlite_lower mid = map sqlite_lower (p # q) \<and> pattern_compare ps rest"
      then obtain mid rest where m: "c # cs = mid @ rest"
        "map sqlite_lower mid = map sqlite_lower (p # q)" "pattern_compare ps rest" by blast
      then obtain m ms where mm: "mid = m # ms" by (cases mid) auto
      with m have "m = c" "cs = ms @ rest" "sqlite_lower m = sqlite_lower p"
        "map sqlite_lower ms = map sqlite_lower q" by auto
      with m(3) show "sqlite_lower p = sqlite_lower c \<and>
        (\<exists>mid rest. cs = mid @ rest \<and> map sqlite_lower mid = map sqlite_lower q \<and> pattern_compare ps rest)"
        by auto
    qed
    finally show ?thesis unfolding Cons .
  qed
qed

lemma ascii_ci_substring_iff:
  "ascii_ci_substring q s \<longleftrightarrow>
   (\<exists>pre mid rest. s = pre @ mid @ rest \<and> map sqlite_lower mid = map sqlite_lower q)"
proof
  assume "\<exists>pre mid rest. s = pre @ mid @ rest \<and> map sqlite_lower mid = map sqlite_lower q"
  then obtain pre mid rest where "s = pre @ mid @ rest"
    "map sqlite_lower mid = map sqlite_lower q" by blast
  then have "map sqlite_lower s =
    map sqlite_lower pre @ map sqlite_lower q @ map sqlite_lower rest" by simp
  then show "ascii_ci_substring q s" unfolding ascii_ci_substring_def sublist_def by blast
next
  assume "ascii_ci_substring q s"
  then obtain ps ss where e: "map sqlite_lower s = ps @ map sqlite_lower q @ ss"
    unfolding ascii_ci_substring_def sublist_def by blast
  define n m where "n = length ps" and "m = length q"
  have "map sqlite_lower (take m (drop n s)) = take m (drop n (map sqlite_lower s))"
    by (simp add: take_map drop_map)
  also have "\<dots> = map sqlite_lower q"
    unfolding e by (simp add: n_def m_def)
  finally have mid: "map sqlite_lower (take m (drop n s)) = map sqlite_lower q" .
  have "s = take n s @ take m (drop n s) @ drop m (drop n s)"
    by (simp only: append_take_drop_id)
  with mid show "\<exists>pre mid rest. s = pre @ mid @ rest \<and>
    map sqlite_lower mid = map sqlite_lower q" by blast
qed

lemma like_substring:
  assumes "CHR ''%'' \<notin> set q" "CHR ''_'' \<notin> set q"
  shows "pattern_compare (''%'' @ q @ ''%'') s \<longleftrightarrow> ascii_ci_substring q s"
proof -
  have "pattern_compare (''%'' @ q @ ''%'') s \<longleftrightarrow>
        (\<exists>pre post. s = pre @ post \<and> pattern_compare (q @ ''%'') post)"
    using like_percent_iff [of "q @ ''%''" s] by simp
  also have "\<dots> \<longleftrightarrow> (\<exists>pre mid rest. s = pre @ mid @ rest \<and>
        map sqlite_lower mid = map sqlite_lower q)"
    unfolding like_plain_prefix [OF assms, of "''%''"] using like_percent_all by blast
  finally show ?thesis unfolding ascii_ci_substring_iff .
qed

lemma c_string_id:
  assumes "CHR 0x00 \<notin> set s"
  shows "c_string s = s"
  using assms by (auto simp: c_string_def takeWhile_eq_all_conv)

lemma utf8_length_append: "utf8_length (xs @ ys) = utf8_length xs + utf8_length ys"
  by (simp add: utf8_length_def)

lemma like_in_limit:
  assumes "utf8_length pattern \<le> like_pattern_limit"
  shows "like pattern s = Returns (pattern_compare (c_string pattern) (c_string s))"
  using assms by (simp add: like_def)

lemma like_over_limit:
  assumes "utf8_length pattern > like_pattern_limit"
  shows "like pattern s = Raises OperationalError"
  using assms by (simp add: like_def)

lemma sql_or_Returns: "sql_or (Returns a) (Returns b) = Returns (a \<or> b)"
  by (cases a) simp_all

lemma text_filter_in_limit:
  assumes "utf8_length (''%'' @ query @ ''%'') \<le> like_pattern_limit"
  shows "text_filter query n =
     Returns (pattern_compare (c_string (''%'' @ query @ ''%'')) (c_string (n_title n)) \<or>
              pattern_compare (c_string (''%'' @ query @ ''%'')) (c_string (n_description n)) \<or>
              pattern_compare (c_string (''%'' @ query @ ''%'')) (c_string (n_subject n)) \<or>
              pattern_compare (c_string (''%'' @ query @ ''%''))
                (c_string (json_dumps (n_tags n))))"
  unfolding text_filter_def Let_def like_in_limit [OF assms] sql_or_Returns by simp

lemma text_filter_over_limit:
  assumes "utf8_length (''%'' @ query @ ''%'') > like_pattern_limit"
  shows "text_filter query n = Raises OperationalError"
  unfolding text_filter_def Let_def like_over_limit [OF assms] by simp

lemma text_filter_percent: "text_filter ''%'' n = Returns True"
proof -
  have "pattern_compare ''%%%'' s" for s
    using like_percent_iff [of "''%%''" s] like_percent_iff [of "''%''" s] like_percent_all
    by blast
  moreover have "utf8_length (''%'' @ ''%'' @ ''%'') \<le> like_pattern_limit"
    by (simp add: utf8_length_def like_pattern_limit_def)
  ultimately show ?thesis
    by (simp add: text_filter_in_limit c_string_def)
qed

lemma first_raise_None:
  assumes "\<forall>r \<in> set rs. \<exists>x. r = Returns x"
  shows "first_raise rs = None"
  using assms by (induction rs) auto

section \<open>The ordering and the join of \<^verbatim>\<open>search_notes\<close>\<close>

lemma set_insert_desc: "set (insert_desc key x xs) = insert x (set xs)"
  by (induction xs) auto

lemma set_order_by_desc_acc:
  "set (foldl (\<lambda>acc x. insert_desc key x acc) acc xs) = set acc \<union> set xs"
  by (induction xs arbitrary: acc) (auto simp: set_insert_desc)

lemma set_order_by_desc: "set (order_by_desc key xs) = set xs"
  by (simp add: order_by_desc_def set_order_by_desc_acc)

lemma search_notes_no_raise:
  assumes "query = [] \<or> first_raise (map (text_filter query) (notes_tbl db)) = None"
  shows "search_notes fdiv round1 db query category sort_by =
     Returns (map (to_view fdiv round1)
       (let rows1 = (if query \<noteq> []
                     then filter (\<lambda>(n, u). text_filter query n = Returns True) (join_users db)
                     else join_users db);
            rows2 = (if category \<noteq> ''All''
                     then filter (\<lambda>(n, u). n_category n = category) rows1
                     else rows1)
        in if sort_by = ''recent'' then order_by_desc (\<lambda>(n, u). n_upload_date n) rows2
           else if sort_by = ''popular'' then order_by_desc (\<lambda>(n, u). n_downloads n) rows2
           else if sort_by = ''rating'' then order_by_desc (\<lambda>(n, u). avg_rating fdiv n) rows2
           else rows2))"
  using assms by (auto simp: search_notes_def Let_def)

lemma text_filter_no_raise:
  assumes "utf8_length (''%'' @ query @ ''%'') \<le> like_pattern_limit"
  shows "first_raise (map (text_filter query) ns) = None"
  by (rule first_raise_None) (auto simp: text_filter_in_limit [OF assms])

lemma set_search_notes:
  assumes "query = [] \<or> utf8_length (''%'' @ query @ ''%'') \<le> like_pattern_limit"
  shows "\<exists>res. search_notes fdiv round1 db query category sort_by = Returns res \<and>
     set res = to_view fdiv round1 `
       {row \<in> set (join_users db).
          (query = [] \<or> text_filter query (fst row) = Returns True) \<and>
          (category = ''All'' \<or> n_category (fst row) = category)}"
proof -
  from assms
  have quiet: "query = [] \<or> first_raise (map (text_filter query) (notes_tbl db)) = None"
    using text_filter_no_raise [of query "notes_tbl db"] by auto
  show ?thesis
    unfolding search_notes_no_raise [OF quiet]
    by (auto simp: Let_def set_order_by_desc)
qed

lemma search_notes_over_limit:
  assumes "utf8_length (''%'' @ query @ ''%'') > like_pattern_limit" and "notes_tbl db \<noteq> []"
  shows "search_notes fdiv round1 db query category sort_by = Raises OperationalError"
proof -
  from assms(1) have "query \<noteq> []"
    by (auto simp: utf8_length_def like_pattern_limit_def)
  moreover from assms(2) obtain n ns where "notes_tbl db = n # ns"
    by (cases "notes_tbl db") auto
  ultimately show ?thesis
    by (simp add: search_notes_def text_filter_over_limit [OF assms(1)])
qed

lemma mset_insert_desc: "mset (insert_desc key x xs) = add_mset x (mset xs)"
  by (induction xs) auto

lemma mset_order_by_desc_acc:
  "mset (foldl (\<lambda>acc x. insert_desc key x acc) acc xs) = mset acc + mset xs"
  by (induction xs arbitrary: acc) (auto simp: mset_insert_desc)

lemma mset_order_by_desc: "mset (order_by_desc key xs) = mset xs"
  by (simp add: order_by_desc_def mset_order_by_desc_acc)

lemma sorted_insert_desc:
  assumes "sorted_wrt (\<lambda>a b. key a \<ge> key b) xs"
  shows "sorted_wrt (\<lambda>a b. key a \<ge> key b) (insert_desc key x xs)"
  using assms
proof (induction xs)
  case Nil
  then show ?case by simp
next
  case (Cons y ys)
  show ?case
  proof (cases "key y \<ge> key x")
    case True
    with Cons show ?thesis by (auto simp: set_insert_desc)
  next
    case False
    then have xy: "key y \<le> key x" by simp
    from Cons.prems have "\<forall>z \<in> set ys. key z \<le> key y" by simp
    with xy have "\<forall>z \<in> set ys. key z \<le> key x" using order_trans by blast
    with Cons.prems False xy show ?thesis by simp
  qed
qed

lemma sorted_order_by_desc_acc:
  assumes "sorted_wrt (\<lambda>a b. key a \<ge> key b) acc"
  shows "sorted_wrt (\<lambda>a b. key a \<ge> key b) (foldl (\<lambda>acc x. insert_desc key x acc) acc xs)"
  using assms by (induction xs arbitrary: acc) (simp_all add: sorted_insert_desc)

lemma sorted_order_by_desc: "sorted_wrt (\<lambda>a b. key a \<ge> key b) (order_by_desc key xs)"
  by (simp add: order_by_desc_def sorted_order_by_desc_acc)

lemma join_users_filter:
  "join_users db =
   concat (map (\<lambda>n. map (Pair n) (filter (\<lambda>u. n_uploader_id n = u_id u) (users db)))
     (notes_tbl db))"
proof -
  have inner: "concat (map (\<lambda>u. if i = u_id u then [(n, u)] else []) us) =
        map (Pair n) (filter (\<lambda>u. i = u_id u) us)" for i n and us :: "user list"
    by (induction us) simp_all
  show ?thesis by (simp add: join_users_def inner)
qed

lemma filter_no_user:
  assumes "i \<notin> u_id ` set us"
  shows "filter (\<lambda>u. i = u_id u) us = []"
  using assms by (simp add: filter_empty_conv image_iff)

lemma filter_one_user:
  assumes "distinct (map u_id us)" and "i \<in> u_id ` set us"
  shows "\<exists>u. filter (\<lambda>u. i = u_id u) us = [u]"
  using assms
proof (induction us)
  case Nil
  then show ?case by simp
next
  case (Cons a us)
  show ?case
  proof (cases "i = u_id a")
    case True
    with Cons.prems(1) have "i \<notin> u_id ` set us" by simp
    then have "filter (\<lambda>u. i = u_id u) us = []" by (rule filter_no_user)
    with True show ?thesis by simp
  next
    case False
    with Cons.prems have "distinct (map u_id us)" "i \<in> u_id ` set us" by simp_all
    from Cons.IH [OF this] False show ?thesis by simp
  qed
qed

lemma join_fst:
  assumes "distinct (map u_id us)"
    and "\<forall>n \<in> set ns. n_uploader_id n \<in> u_id ` set us"
  shows "map fst (concat (map (\<lambda>n. map (Pair n)
           (filter (\<lambda>u. n_uploader_id n = u_id u) us)) ns)) = ns"
  using assms(2)
proof (induction ns)
  case Nil
  then show ?case by simp
next
  case (Cons n ns)
  then have "n_uploader_id n \<in> u_id ` set us" by simp
  with assms(1) obtain u where "filter (\<lambda>u. n_uploader_id n = u_id u) us = [u]"
    using filter_one_user by blast
  with Cons show ?case by simp
qed

lemma join_users_all:
  assumes "store_ok db"
  shows "map fst (join_users db) = notes_tbl db"
  using assms unfolding join_users_filter
  by (intro join_fst) (simp_all add: store_ok_iff)

lemma join_users_rows:
  assumes "row \<in> set (join_users db)"
  shows "snd row \<in> set (users db) \<and> u_id (snd row) = n_uploader_id (fst row)"
  using assms by (auto simp: join_users_filter)

lemma mset_map_eq:
  assumes "mset xs = mset ys"
  shows "mset (map f xs) = mset (map f ys)"
  using assms by simp

lemma search_recent_rows:
  "search_notes fdiv round1 db [] ''All'' ''recent'' =
   Returns (map (to_view fdiv round1)
     (order_by_desc (\<lambda>row. n_upload_date (fst row)) (join_users db)))"
  by (simp add: search_notes_def split_def)

lemma to_view_fields:
  "v_id (to_view fdiv round1 row) = n_id (fst row)"
  "v_upload_date (to_view fdiv round1 row) = n_upload_date (fst row)"
  by (simp_all add: to_view_def case_prod_beta)

section \<open>The upsert and the recomputation\<close>

lemma filter_upsert_other:
  assumes "i \<noteq> note_id"
  shows "filter (\<lambda>r. r_note_id r = i) (upsert_rating rs note_id user_id val review now) =
         filter (\<lambda>r. r_note_id r = i) rs"
proof -
  have "filter (\<lambda>r. r_note_id r = i)
          (map (\<lambda>r. if r_note_id r = note_id \<and> r_user_id r = user_id
                     then r\<lparr>r_rating := val, r_review := review\<rparr> else r) rs) =
        filter (\<lambda>r. r_note_id r = i) rs"
    using assms by (induction rs) auto
  with assms show ?thesis by (simp add: upsert_rating_def)
qed

lemma ratings_of_rate_note_other:
  assumes "i \<noteq> note_id"
  shows "ratings_of (fst (rate_note db note_id val review now)) i = ratings_of db i"
  using assms
  by (auto simp: rate_note_def ratings_of_def Let_def filter_upsert_other split: option.splits)

lemma rate_note_failure:
  assumes "current_user db = None \<or> val < 1 \<or> 5 < val \<or> \<not> in_int64 note_id"
  shows "fst (rate_note db note_id val review now) = db"
  using assms by (auto simp: rate_note_def split: option.splits)

lemma rate_note_success:
  assumes "current_user db = Some cu" "1 \<le> val" "val \<le> 5" "in_int64 note_id"
  shows "rate_note db note_id val review now =
     (db\<lparr>ratings := upsert_rating (ratings db) note_id (s_id cu) val review now,
         notes_tbl :=
           map (\<lambda>n. if n_id n = note_id
                then n\<lparr>n_rating_sum :=
                         sum_list (map r_rating (filter (\<lambda>r. r_note_id r = note_id)
                           (upsert_rating (ratings db) note_id (s_id cu) val review now))),
                       n_rating_count :=
                         int (length (filter (\<lambda>r. r_note_id r = note_id)
                           (upsert_rating (ratings db) note_id (s_id cu) val review now)))\<rparr>
                else n) (notes_tbl db)\<rparr>, Inr ())"
  using assms
  by (simp add: rate_note_def Let_def sum_ratings_def count_ratings_def ratings_of_def)

lemma rate_note_rated_ok:
  assumes "current_user db = Some cu" "1 \<le> val" "val \<le> 5" "in_int64 note_id"
    and "n \<in> set (notes_tbl (fst (rate_note db note_id val review now)))"
    and "n_id n = note_id"
  shows "aggregates_ok (fst (rate_note db note_id val review now)) n"
proof -
  define rs where "rs = upsert_rating (ratings db) note_id (s_id cu) val review now"
  define total where "total = sum_list (map r_rating (filter (\<lambda>r. r_note_id r = note_id) rs))"
  define cnt where "cnt = int (length (filter (\<lambda>r. r_note_id r = note_id) rs))"
  have res: "fst (rate_note db note_id val review now) =
      db\<lparr>ratings := rs,
         notes_tbl := map (\<lambda>n. if n_id n = note_id
                               then n\<lparr>n_rating_sum := total, n_rating_count := cnt\<rparr>
                               else n) (notes_tbl db)\<rparr>"
    by (simp add: rate_note_success [OF assms(1-4)] rs_def total_def cnt_def)
  from assms(5) obtain x where "x \<in> set (notes_tbl db)"
    and "n = (if n_id x = note_id then x\<lparr>n_rating_sum := total, n_rating_count := cnt\<rparr> else x)"
    unfolding res by auto
  with assms(6) have "n_rating_sum n = total \<and> n_rating_count n = cnt"
    by (auto split: if_splits)
  then show ?thesis
    unfolding res
    by (simp add: aggregates_ok_def sum_ratings_def count_ratings_def ratings_of_def
        total_def cnt_def assms(6))
qed

lemma rate_note_other_notes:
  assumes "n \<in> set (notes_tbl (fst (rate_note db note_id val review now)))"
    and "n_id n \<noteq> note_id"
  shows "n \<in> set (notes_tbl db)"
  using assms by (auto simp: rate_note_def Let_def split: option.splits if_splits)

lemma rate_note_preserves_ok:
  assumes "\<forall>n \<in> set (notes_tbl db). aggregates_ok db n"
    and "n \<in> set (notes_tbl (fst (rate_note db note_id val review now)))"
  shows "aggregates_ok (fst (rate_note db note_id val review now)) n"
proof (cases "current_user db = None \<or> val < 1 \<or> 5 < val \<or> \<not> in_int64 note_id")
  case True
  with assms show ?thesis by (simp add: rate_note_failure)
next
  case False
  then obtain cu where ok: "current_user db = Some cu" "1 \<le> val" "val \<le> 5"
    "in_int64 note_id" by auto
  show ?thesis
  proof (cases "n_id n = note_id")
    case True
    with ok assms(2) show ?thesis by (rule rate_note_rated_ok)
  next
    case False
    with assms have "n \<in> set (notes_tbl db)" by (auto dest: rate_note_other_notes)
    with assms(1) have "aggregates_ok db n" by blast
    with False show ?thesis
      by (simp add: aggregates_ok_def sum_ratings_def count_ratings_def
          ratings_of_rate_note_other)
  qed
qed

lemma rate_note_ids:
  "map n_id (notes_tbl (fst (rate_note db note_id val review now))) = map n_id (notes_tbl db)"
  by (auto simp: rate_note_def Let_def split: option.splits)

text \<open>
  What \<^verbatim>\<open>rate_note\<close> does for the aggregates. A successful call (a session, a value
  from 1 to 5, an id of the 64-bit range) recomputes the two aggregates of the rated note in full: afterwards every
  note of the rated id has \<^verbatim>\<open>rating_sum\<close> equal to the sum and \<^verbatim>\<open>rating_count\<close> equal to
  the number of the \<^verbatim>\<open>ratings\<close> rows of that id. No other note and no rating of another
  note is touched, so if the equalities held for every note before a call, they hold for
  every note after it. A failing call changes nothing, and no call changes which note
  ids are present.
\<close>

lemma rate_note_recomputes:
  assumes "db' = fst (rate_note db note_id val review now)"
  shows "(current_user db \<noteq> None \<and> 1 \<le> val \<and> val \<le> 5 \<and> in_int64 note_id \<longrightarrow>
            snd (rate_note db note_id val review now) = Inr () \<and>
            (\<forall>n \<in> set (notes_tbl db'). n_id n = note_id \<longrightarrow> aggregates_ok db' n)) \<and>
         ((\<forall>n \<in> set (notes_tbl db). aggregates_ok db n) \<longrightarrow>
            (\<forall>n \<in> set (notes_tbl db'). aggregates_ok db' n)) \<and>
         (current_user db = None \<or> val < 1 \<or> 5 < val \<or> \<not> in_int64 note_id \<longrightarrow>
            db' = db) \<and>
         map n_id (notes_tbl db') = map n_id (notes_tbl db)"
proof (intro conjI impI)
  assume a: "current_user db \<noteq> None \<and> 1 \<le> val \<and> val \<le> 5 \<and> in_int64 note_id"
  then obtain cu where ok: "current_user db = Some cu" "1 \<le> val" "val \<le> 5"
    "in_int64 note_id" by auto
  show "snd (rate_note db note_id val review now) = Inr ()"
    by (simp add: rate_note_success [OF ok])
  show "\<forall>n \<in> set (notes_tbl db'). n_id n = note_id \<longrightarrow> aggregates_ok db' n"
    unfolding assms using rate_note_rated_ok [OF ok] by blast
next
  assume "\<forall>n \<in> set (notes_tbl db). aggregates_ok db n"
  then show "\<forall>n \<in> set (notes_tbl db'). aggregates_ok db' n"
    unfolding assms using rate_note_preserves_ok by blast
next
  assume "current_user db = None \<or> val < 1 \<or> 5 < val \<or> \<not> in_int64 note_id"
  then show "db' = db" unfolding assms by (rule rate_note_failure)
next
  show "map n_id (notes_tbl db') = map n_id (notes_tbl db)"
    unfolding assms by (rule rate_note_ids)
qed

lemma rate_note_recomputes_on_demo:
  "snd (rate_note student_db 1 5 ''great'' ''2024-01-02 09:00:00'') = Inr () \<and>
   (\<forall>n \<in> set (notes_tbl rated_db). aggregates_ok rated_db n) \<and>
   map_option n_rating_sum (find_note rated_db 1) = Some 5 \<and>
   map_option n_rating_count (find_note rated_db 1) = Some 1 \<and>
   fst (rate_note student_db 1 6 ''great'' ''2024-01-02 09:00:00'') = student_db"
proof -
  have session: "current_user student_db \<noteq> None" by (simp add: student_db_session)
  have before: "\<forall>n \<in> set (notes_tbl student_db). aggregates_ok student_db n"
    using student_db_aggregates by (simp add: list_all_iff)
  show ?thesis
    using rate_note_recomputes [of rated_db student_db 1 5 "''great''" "''2024-01-02 09:00:00''"]
      rate_note_recomputes [of _ student_db 1 6 "''great''" "''2024-01-02 09:00:00''", OF refl]
      session before rated_db_note_1
    by (simp add: rated_db_def in_int64_def)
qed

section \<open>Rating a note again\<close>

lemma upsert_no_match:
  assumes "\<forall>r \<in> set rs. \<not> (r_note_id r = i \<and> r_user_id r = u)"
  shows "map (\<lambda>r. if r_note_id r = i \<and> r_user_id r = u
                   then r\<lparr>r_rating := v, r_review := w\<rparr> else r) rs = rs"
  using assms by (induction rs) auto

lemma upsert_existing:
  assumes "find (\<lambda>r. r_note_id r = i \<and> r_user_id r = u) rs = Some old"
  shows "upsert_rating rs i u v w now =
         map (\<lambda>r. if r_note_id r = i \<and> r_user_id r = u
                   then r\<lparr>r_rating := v, r_review := w\<rparr> else r) rs"
proof -
  from assms have "old \<in> set rs \<and> r_note_id old = i \<and> r_user_id old = u"
    by (auto simp: find_Some_iff)
  then have "filter (\<lambda>r. r_note_id r = i \<and> r_user_id r = u) rs \<noteq> []"
    by (auto simp: filter_empty_conv)
  then show ?thesis by (simp add: upsert_rating_def)
qed

lemma upsert_existing_rows:
  assumes "distinct (map (\<lambda>r. (r_note_id r, r_user_id r)) rs)"
    and "find (\<lambda>r. r_note_id r = i \<and> r_user_id r = u) rs = Some old"
  shows "filter (\<lambda>r. r_note_id r = i \<and> r_user_id r = u) (upsert_rating rs i u v w now) =
           [old\<lparr>r_rating := v, r_review := w\<rparr>] \<and>
         sum_list (map r_rating (filter (\<lambda>r. r_note_id r = i) (upsert_rating rs i u v w now))) =
           sum_list (map r_rating (filter (\<lambda>r. r_note_id r = i) rs)) + (v - r_rating old)"
  unfolding upsert_existing [OF assms(2)] using assms
proof (induction rs)
  case Nil
  then show ?case by simp
next
  case (Cons r rs)
  show ?case
  proof (cases "r_note_id r = i \<and> r_user_id r = u")
    case True
    with Cons.prems have old: "old = r" by simp
    from Cons.prems(1) have "(r_note_id r, r_user_id r) \<notin>
        (\<lambda>r. (r_note_id r, r_user_id r)) ` set rs" by simp
    with True have "\<forall>x \<in> set rs. \<not> (r_note_id x = i \<and> r_user_id x = u)"
      by (fastforce simp: image_iff)
    then have same: "map (\<lambda>r. if r_note_id r = i \<and> r_user_id r = u
        then r\<lparr>r_rating := v, r_review := w\<rparr> else r) rs = rs"
      and none: "filter (\<lambda>r. r_note_id r = i \<and> r_user_id r = u) rs = []"
      by (simp_all add: upsert_no_match filter_empty_conv)
    from True show ?thesis by (simp add: same none old)
  next
    case False
    with Cons.prems have "distinct (map (\<lambda>r. (r_note_id r, r_user_id r)) rs)"
      and "find (\<lambda>r. r_note_id r = i \<and> r_user_id r = u) rs = Some old"
      by auto
    from Cons.IH [OF this] False show ?thesis by auto
  qed
qed

lemma upsert_existing_count:
  assumes "find (\<lambda>r. r_note_id r = i \<and> r_user_id r = u) rs = Some old"
  shows "length (upsert_rating rs i u v w now) = length rs \<and>
         length (filter (\<lambda>r. r_note_id r = i) (upsert_rating rs i u v w now)) =
           length (filter (\<lambda>r. r_note_id r = i) rs)"
proof -
  have "length (filter (\<lambda>r. r_note_id r = i)
          (map (\<lambda>r. if r_note_id r = i \<and> r_user_id r = u
                     then r\<lparr>r_rating := v, r_review := w\<rparr> else r) rs)) =
        length (filter (\<lambda>r. r_note_id r = i) rs)"
    by (induction rs) auto
  then show ?thesis by (simp add: upsert_existing [OF assms])
qed

text \<open>Rating again from a state in which the session's user has a row \<open>old\<close> for the
  note: no row is added, the row takes the new value and review, and the note's
  aggregates are set to the former count and to the former sum plus the difference of
  the values.\<close>

lemma rate_note_existing_row:
  assumes "current_user db = Some cu" and "1 \<le> v2" and "v2 \<le> 5"
    and "ratings_unique db"
    and "find_note db note_id = Some n"
    and "find (\<lambda>r. r_note_id r = note_id \<and> r_user_id r = s_id cu) (ratings db) = Some old"
    and "db' = fst (rate_note db note_id v2 review now)"
    and "in_int64 note_id"
  shows "snd (rate_note db note_id v2 review now) = Inr () \<and>
         length (ratings db') = length (ratings db) \<and>
         filter (\<lambda>r. r_note_id r = note_id \<and> r_user_id r = s_id cu) (ratings db') =
           [old\<lparr>r_rating := v2, r_review := review\<rparr>] \<and>
         count_ratings db' note_id = count_ratings db note_id \<and>
         sum_ratings db' note_id = sum_ratings db note_id + (v2 - r_rating old) \<and>
         find_note db' note_id =
           Some (n\<lparr>n_rating_sum := sum_ratings db note_id + (v2 - r_rating old),
                   n_rating_count := count_ratings db note_id\<rparr>) \<and>
         (aggregates_ok db n \<longrightarrow>
            find_note db' note_id =
              Some (n\<lparr>n_rating_sum := n_rating_sum n + (v2 - r_rating old)\<rparr>))"
proof -
  note ok = assms(1-3,8)
  define rs where "rs = upsert_rating (ratings db) note_id (s_id cu) v2 review now"
  have uniq: "distinct (map (\<lambda>r. (r_note_id r, r_user_id r)) (ratings db))"
    using assms(4) by (simp add: ratings_unique_def)
  have rows: "filter (\<lambda>r. r_note_id r = note_id \<and> r_user_id r = s_id cu) rs =
      [old\<lparr>r_rating := v2, r_review := review\<rparr>]"
    and total: "sum_list (map r_rating (filter (\<lambda>r. r_note_id r = note_id) rs)) =
      sum_ratings db note_id + (v2 - r_rating old)"
    using upsert_existing_rows [OF uniq assms(6), of v2 review now]
    by (simp_all add: rs_def sum_ratings_def ratings_of_def)
  have len: "length rs = length (ratings db)"
    and cnt: "int (length (filter (\<lambda>r. r_note_id r = note_id) rs)) = count_ratings db note_id"
    using upsert_existing_count [OF assms(6), of v2 review now]
    by (simp_all add: rs_def count_ratings_def ratings_of_def)
  have res: "rate_note db note_id v2 review now =
      (db\<lparr>ratings := rs,
          notes_tbl := map (\<lambda>n. if n_id n = note_id
            then n\<lparr>n_rating_sum := sum_ratings db note_id + (v2 - r_rating old),
                   n_rating_count := count_ratings db note_id\<rparr>
            else n) (notes_tbl db)\<rparr>, Inr ())"
    by (simp add: rate_note_success [OF ok] total cnt flip: rs_def)
  have found: "find_note db' note_id =
      Some (n\<lparr>n_rating_sum := sum_ratings db note_id + (v2 - r_rating old),
              n_rating_count := count_ratings db note_id\<rparr>)"
    using assms(5) unfolding assms(7) res
    by (simp add: find_note_def find_map_same_id)
  have "find_note db' note_id = Some (n\<lparr>n_rating_sum := n_rating_sum n + (v2 - r_rating old)\<rparr>)"
    if "aggregates_ok db n"
  proof -
    from assms(5) have "n_id n = note_id"
      by (auto simp: find_note_def find_Some_iff)
    with that show ?thesis
      unfolding found by (simp add: aggregates_ok_def)
  qed
  with found show ?thesis
    unfolding assms(7) res
    by (simp add: rows total len cnt sum_ratings_def count_ratings_def ratings_of_def)
qed

section \<open>Reachable states\<close>

lemma store_ok_initial: "store_ok (initial H clock)"
  by (simp add: store_ok_def ratings_unique_def initial_def startup_def create_demo_data_def
      empty_db_def demo_users_def sample_notes_def insert_user_def insert_note_def Let_def)

lemma store_ok_authenticate:
  assumes "store_ok db"
  shows "store_ok (fst (authenticate H db username password))"
proof (cases "find (\<lambda>u. u_username u = username) (users db)")
  case None
  with assms show ?thesis by (simp add: authenticate_def)
next
  case (Some user)
  then have "user \<in> set (users db)" by (auto simp: find_Some_iff)
  with assms Some show ?thesis
    by (auto simp: authenticate_def store_ok_iff)
qed

lemma store_ok_logout: "store_ok db \<Longrightarrow> store_ok (logout db)"
  by (simp add: store_ok_iff logout_def)

lemma store_ok_startup:
  assumes "store_ok db"
  shows "store_ok (startup H clock db)"
proof -
  from assms have "users db \<noteq> []" by (simp add: store_ok_iff)
  then have "startup H clock db = db\<lparr>current_user := None\<rparr>"
    by (simp add: startup_def create_demo_data_def)
  with assms show ?thesis by (simp add: store_ok_iff)
qed

lemma store_ok_register_user:
  assumes "store_ok db"
  shows "store_ok (fst (register_user H db username password email now))"
  using assms
  by (fastforce simp: register_user_def insert_user_def store_ok_iff)

lemma store_ok_add_note:
  assumes "store_ok db"
  shows "store_ok (fst (add_note db title category subject description tags file stamp now))"
  using assms
  by (fastforce simp: add_note_def insert_note_def store_ok_iff Let_def
      split: option.splits prod.splits)

lemma n_id_comp_downloads:
  "n_id \<circ> (\<lambda>n. if n_id n = i then n\<lparr>n_downloads := d n\<rparr> else n) = n_id"
  by (auto simp: fun_eq_iff)

lemma n_id_comp_aggregates:
  "n_id \<circ> (\<lambda>n. if n_id n = i then n\<lparr>n_rating_sum := a, n_rating_count := b\<rparr> else n) = n_id"
  by (auto simp: fun_eq_iff)

lemma rating_key_comp_update:
  "(\<lambda>r. (r_note_id r, r_user_id r)) \<circ>
     (\<lambda>r. if r_note_id r = i \<and> r_user_id r = u then r\<lparr>r_rating := v, r_review := w\<rparr> else r) =
   (\<lambda>r. (r_note_id r, r_user_id r))"
  by (auto simp: fun_eq_iff)

lemma store_ok_download_note:
  assumes "store_ok db"
  shows "store_ok (fst (download_note db note_id now))"
  using assms
  by (auto simp: download_note_def store_ok_iff n_id_comp_downloads split: option.splits)

lemma upsert_rating_keys:
  assumes "distinct (map (\<lambda>r. (r_note_id r, r_user_id r)) rs)"
  shows "distinct (map (\<lambda>r. (r_note_id r, r_user_id r)) (upsert_rating rs i u v w now))"
proof (cases "filter (\<lambda>r. r_note_id r = i \<and> r_user_id r = u) rs = []")
  case True
  then have "(i, u) \<notin> (\<lambda>r. (r_note_id r, r_user_id r)) ` set rs"
    by (auto simp: filter_empty_conv)
  with assms True show ?thesis by (simp add: upsert_rating_def)
next
  case False
  with assms show ?thesis by (simp add: upsert_rating_def rating_key_comp_update)
qed

lemma store_ok_rate_note:
  assumes "store_ok db"
  shows "store_ok (fst (rate_note db note_id val review now))"
proof (cases "current_user db = None \<or> val < 1 \<or> 5 < val \<or> \<not> in_int64 note_id")
  case True
  with assms show ?thesis by (simp add: rate_note_failure)
next
  case False
  then obtain cu where ok: "current_user db = Some cu" "1 \<le> val" "val \<le> 5"
    "in_int64 note_id" by auto
  from assms ok(1) show ?thesis
    unfolding rate_note_success [OF ok]
    by (auto simp: store_ok_iff n_id_comp_aggregates upsert_rating_keys)
qed

lemma store_ok_delete_note:
  assumes "store_ok db"
  shows "store_ok (fst (delete_note db note_id rm_ok))"
  using assms
  by (auto simp: delete_note_def store_ok_iff Let_def distinct_map_filter
      split: option.splits)

lemma store_ok_step: "store_ok db \<Longrightarrow> store_ok (step H db e)"
  by (cases e)
    (simp_all add: store_ok_authenticate store_ok_logout store_ok_startup
      store_ok_register_user store_ok_add_note store_ok_download_note store_ok_rate_note
      store_ok_delete_note)

lemma reachable_store_ok: "reachable H db \<Longrightarrow> store_ok db"
  by (induction rule: reachable.induct) (simp_all add: store_ok_initial store_ok_step)

lemma reachable_run: "reachable H db \<Longrightarrow> reachable H (run H db es)"
  unfolding run_def
  by (induction es arbitrary: db) (auto intro: reachable_step)

lemma run_append: "run H db (es @ [e]) = step H (run H db es) e"
  by (simp add: run_def)

lemma reachable_student_db: "reachable toy_digest student_db"
proof -
  have "reachable toy_digest demo_db"
    unfolding demo_db_def by (rule reachable_initial)
  then have "reachable toy_digest (step toy_digest demo_db (Authenticate ''student1'' ''pass123''))"
    by (rule reachable_step)
  then show ?thesis by (simp add: student_db_def)
qed

lemma reachable_orphan_before: "reachable toy_digest orphan_before"
proof -
  have "reachable toy_digest demo_db"
    unfolding demo_db_def by (rule reachable_initial)
  then show ?thesis unfolding orphan_before_def by (rule reachable_run)
qed

lemma reachable_orphan_db: "reachable toy_digest orphan_db"
proof -
  have "reachable toy_digest
      (step toy_digest orphan_before (Rate 1 3 [] ''2024-01-02 10:20:00''))"
    using reachable_orphan_before by (rule reachable_step)
  then show ?thesis by (simp add: orphan_db_def)
qed

section \<open>A rated note stays in step with the ratings table\<close>

lemma note_synced_iff:
  "note_synced db i \<longleftrightarrow>
     i \<le> notes_seq db \<and> (\<forall>n \<in> set (notes_tbl db). n_id n = i \<longrightarrow> aggregates_ok db n)"
  by (auto simp: note_synced_def list_all_iff)

lemma aggregates_ok_iff:
  "aggregates_ok db n \<longleftrightarrow>
     n_rating_sum n =
       sum_list (map r_rating (filter (\<lambda>r. r_note_id r = n_id n) (ratings db))) \<and>
     n_rating_count n = int (length (filter (\<lambda>r. r_note_id r = n_id n) (ratings db)))"
  by (simp add: aggregates_ok_def sum_ratings_def count_ratings_def ratings_of_def)

lemma note_synced_authenticate:
  "note_synced db i \<Longrightarrow> note_synced (fst (authenticate H db username password)) i"
  by (auto simp: authenticate_def note_synced_iff aggregates_ok_iff split: option.splits)

lemma note_synced_logout: "note_synced db i \<Longrightarrow> note_synced (logout db) i"
  by (simp add: logout_def note_synced_iff aggregates_ok_iff)

lemma note_synced_startup:
  assumes "store_ok db" "note_synced db i"
  shows "note_synced (startup H clock db) i"
proof -
  from assms(1) have "users db \<noteq> []" by (simp add: store_ok_iff)
  then have "startup H clock db = db\<lparr>current_user := None\<rparr>"
    by (simp add: startup_def create_demo_data_def)
  with assms(2) show ?thesis by (simp add: note_synced_iff aggregates_ok_iff)
qed

lemma note_synced_register_user:
  "note_synced db i \<Longrightarrow> note_synced (fst (register_user H db username password email now)) i"
  by (auto simp: register_user_def insert_user_def note_synced_iff aggregates_ok_iff)

lemma note_synced_add_note:
  assumes "note_synced db i"
  shows "note_synced (fst (add_note db title category subject description tags file stamp now)) i"
  using assms
  by (auto simp: add_note_def insert_note_def note_synced_iff aggregates_ok_iff Let_def
      split: option.splits prod.splits)

lemma note_synced_download_note:
  assumes "note_synced db i"
  shows "note_synced (fst (download_note db note_id now)) i"
  using assms
  by (auto simp: download_note_def note_synced_iff aggregates_ok_iff split: option.splits)

lemma rate_note_seq:
  "notes_seq (fst (rate_note db note_id val review now)) = notes_seq db"
  by (auto simp: rate_note_def Let_def split: option.splits)

lemma note_synced_rate_note:
  assumes "note_synced db i"
  shows "note_synced (fst (rate_note db note_id val review now)) i"
  unfolding note_synced_iff
proof (intro conjI ballI impI)
  from assms show "i \<le> notes_seq (fst (rate_note db note_id val review now))"
    by (simp add: rate_note_seq note_synced_iff)
next
  fix n
  assume n: "n \<in> set (notes_tbl (fst (rate_note db note_id val review now)))" "n_id n = i"
  show "aggregates_ok (fst (rate_note db note_id val review now)) n"
  proof (cases "current_user db = None \<or> val < 1 \<or> 5 < val \<or> \<not> in_int64 note_id")
    case True
    with assms n show ?thesis by (simp add: rate_note_failure note_synced_iff)
  next
    case False
    then obtain cu where ok: "current_user db = Some cu" "1 \<le> val" "val \<le> 5"
    "in_int64 note_id" by auto
    show ?thesis
    proof (cases "i = note_id")
      case True
      with ok n show ?thesis by (auto intro: rate_note_rated_ok)
    next
      case False
      with n have "n \<in> set (notes_tbl db)" by (auto dest: rate_note_other_notes)
      with assms n have "aggregates_ok db n" by (simp add: note_synced_iff)
      with False n show ?thesis
        by (simp add: aggregates_ok_def sum_ratings_def count_ratings_def
            ratings_of_rate_note_other)
    qed
  qed
qed

lemma filter_other_note:
  assumes "i \<noteq> j"
  shows "filter (\<lambda>r. r_note_id r \<noteq> j \<and> r_note_id r = i) rs = filter (\<lambda>r. r_note_id r = i) rs"
  using assms by (induction rs) auto

lemma note_synced_delete_note:
  assumes "note_synced db i"
  shows "note_synced (fst (delete_note db note_id rm_ok)) i"
proof (cases "i = note_id")
  case True
  with assms show ?thesis
    by (auto simp: delete_note_def note_synced_iff Let_def aggregates_ok_iff
        split: option.splits)
next
  case False
  with assms show ?thesis
    by (auto simp: delete_note_def note_synced_iff Let_def aggregates_ok_iff
        filter_other_note split: option.splits)
qed

lemma note_synced_step:
  "store_ok db \<Longrightarrow> note_synced db i \<Longrightarrow> note_synced (step H db e) i"
  by (cases e)
    (simp_all add: note_synced_authenticate note_synced_logout note_synced_startup
      note_synced_register_user note_synced_add_note note_synced_download_note
      note_synced_rate_note note_synced_delete_note)

lemma run_invariants:
  assumes "store_ok db" "note_synced db i"
  shows "store_ok (run H db es) \<and> note_synced (run H db es) i"
  using assms unfolding run_def
  by (induction es arbitrary: db) (simp_all add: store_ok_step note_synced_step)

lemma rate_note_synced:
  assumes "store_ok db" and "current_user db = Some cu" and "1 \<le> val" and "val \<le> 5"
    and "find_note db note_id = Some n" and "in_int64 note_id"
  shows "note_synced (fst (rate_note db note_id val review now)) note_id"
  unfolding note_synced_iff
proof (intro conjI ballI impI)
  from assms(5) have "n \<in> set (notes_tbl db)" "n_id n = note_id"
    by (auto simp: find_note_def find_Some_iff)
  with assms(1) have "note_id \<le> notes_seq db" by (auto simp: store_ok_iff)
  then show "note_id \<le> notes_seq (fst (rate_note db note_id val review now))"
    by (simp add: rate_note_seq)
next
  fix m
  assume "m \<in> set (notes_tbl (fst (rate_note db note_id val review now)))" "n_id m = note_id"
  with assms(2-4,6) show "aggregates_ok (fst (rate_note db note_id val review now)) m"
    by (rule rate_note_rated_ok)
qed

lemma upsert_rating_value:
  assumes "r \<in> set (upsert_rating rs i u v w now)" "r_note_id r = i" "r_user_id r = u"
  shows "r_rating r = v"
proof (cases "filter (\<lambda>r. r_note_id r = i \<and> r_user_id r = u) rs = []")
  case True
  then have "\<forall>x \<in> set rs. \<not> (r_note_id x = i \<and> r_user_id x = u)"
    by (simp add: filter_empty_conv)
  moreover from assms(1) True
  have "r \<in> set rs \<or> r = \<lparr>r_note_id = i, r_user_id = u, r_rating = v, r_review = w,
                                r_created_at = now\<rparr>"
    by (auto simp: upsert_rating_def)
  ultimately have e: "r = \<lparr>r_note_id = i, r_user_id = u, r_rating = v, r_review = w,
                            r_created_at = now\<rparr>"
    using assms(2,3) by blast
  show ?thesis by (subst e) simp
next
  case False
  with assms(1) obtain x where "x \<in> set rs"
    "r = (if r_note_id x = i \<and> r_user_id x = u then x\<lparr>r_rating := v, r_review := w\<rparr> else x)"
    by (auto simp: upsert_rating_def)
  with assms(2,3) show ?thesis by (cases "r_note_id x = i \<and> r_user_id x = u") auto
qed

text \<open>
  Rating again a note that was present when it was first rated. In a reachable state a
  user rates a note that is present, with \<open>v1\<close>; any run of the program follows; then
  the same user, whose \<^verbatim>\<open>ratings\<close> row for the note is now \<open>old\<close> (its value is \<open>v1\<close>
  when nothing happened in between), rates the note, still present, again with a value
  \<open>v2\<close> from 1 to 5. The second call succeeds and creates no row: the table has as many
  rows as before and its one row for this note and user is \<open>old\<close> with the new value and
  review. The note is as before except that its \<^verbatim>\<open>rating_sum\<close> has changed by \<open>v2\<close> minus
  the old value; its \<^verbatim>\<open>rating_count\<close> is unchanged.
\<close>

lemma rate_note_again_when_present:
  assumes "reachable H db0"
    and "current_user db0 = Some cu0" and "find_note db0 note_id = Some n0"
    and "1 \<le> v1" and "v1 \<le> 5"
    and "db = run H (fst (rate_note db0 note_id v1 review1 now1)) es"
    and "current_user db = Some cu" and "s_id cu = s_id cu0"
    and "find_note db note_id = Some n"
    and "find (\<lambda>r. r_note_id r = note_id \<and> r_user_id r = s_id cu) (ratings db) = Some old"
    and "1 \<le> v2" and "v2 \<le> 5"
    and "db' = fst (rate_note db note_id v2 review now)"
    and "in_int64 note_id"
  shows "snd (rate_note db note_id v2 review now) = Inr () \<and>
         length (ratings db') = length (ratings db) \<and>
         filter (\<lambda>r. r_note_id r = note_id \<and> r_user_id r = s_id cu) (ratings db') =
           [old\<lparr>r_rating := v2, r_review := review\<rparr>] \<and>
         find_note db' note_id =
           Some (n\<lparr>n_rating_sum := n_rating_sum n + (v2 - r_rating old)\<rparr>) \<and>
         n_rating_count (n\<lparr>n_rating_sum := n_rating_sum n + (v2 - r_rating old)\<rparr>) =
           n_rating_count n \<and>
         (es = [] \<longrightarrow> r_rating old = v1)"
proof -
  define db1 where "db1 = fst (rate_note db0 note_id v1 review1 now1)"
  have ok0: "store_ok db0" using assms(1) by (rule reachable_store_ok)
  then have "store_ok db1" unfolding db1_def by (rule store_ok_rate_note)
  moreover have "note_synced db1 note_id"
    unfolding db1_def using ok0 assms(2,4,5,3,14) by (rule rate_note_synced)
  ultimately have inv: "store_ok db" "note_synced db note_id"
    using run_invariants [of db1 note_id H es] assms(6) by (simp_all add: db1_def)
  from assms(9) have n: "n \<in> set (notes_tbl db)" "n_id n = note_id"
    by (auto simp: find_note_def find_Some_iff)
  with inv(2) have synced: "aggregates_ok db n" by (simp add: note_synced_iff)
  from inv(1) have uniq: "ratings_unique db" by (simp add: store_ok_def)
  note row = rate_note_existing_row [OF assms(7,11,12) uniq assms(9,10,13,14)]
  have first: "r_rating old = v1" if "es = []"
  proof -
    from that assms(6) have "db = db1" by (simp add: run_def db1_def)
    then have "ratings db =
        upsert_rating (ratings db0) note_id (s_id cu0) v1 review1 now1"
      by (simp add: db1_def rate_note_success [OF assms(2,4,5,14)])
    moreover from assms(10) have "old \<in> set (ratings db)"
      "r_note_id old = note_id" "r_user_id old = s_id cu0"
      by (auto simp: find_Some_iff assms(8))
    ultimately show ?thesis by (auto intro: upsert_rating_value)
  qed
  have "snd (rate_note db note_id v2 review now) = Inr ()"
    and "length (ratings db') = length (ratings db)"
    and "filter (\<lambda>r. r_note_id r = note_id \<and> r_user_id r = s_id cu) (ratings db') =
           [old\<lparr>r_rating := v2, r_review := review\<rparr>]"
    and "find_note db' note_id =
           Some (n\<lparr>n_rating_sum := n_rating_sum n + (v2 - r_rating old)\<rparr>)"
    using row synced by blast+
  with first show ?thesis by simp
qed

lemma rate_note_again_on_demo:
  "map_option n_rating_count (find_note rerate_db 1) = Some 2 \<and>
   map_option n_rating_sum (find_note rerate_db 1) = Some 9 \<and>
   snd (rate_note rerate_db 1 2 ''dated'' ''2024-01-03 09:00:00'') = Inr () \<and>
   length (ratings (fst (rate_note rerate_db 1 2 ''dated'' ''2024-01-03 09:00:00''))) = 2 \<and>
   filter (\<lambda>r. r_note_id r = 1 \<and> r_user_id r = 2)
     (ratings (fst (rate_note rerate_db 1 2 ''dated'' ''2024-01-03 09:00:00''))) =
     [\<lparr>r_note_id = 1, r_user_id = 2, r_rating = 2, r_review = ''dated'',
       r_created_at = ''2024-01-02 09:00:00''\<rparr>] \<and>
   map_option n_rating_count
     (find_note (fst (rate_note rerate_db 1 2 ''dated'' ''2024-01-03 09:00:00'')) 1) = Some 2 \<and>
   map_option n_rating_sum
     (find_note (fst (rate_note rerate_db 1 2 ''dated'' ''2024-01-03 09:00:00'')) 1) = Some 6"
proof -
  let ?cu = "\<lparr>s_id = 2, s_username = ''student1'', s_role = ''student''\<rparr>"
  obtain n0 where n0: "find_note student_db 1 = Some n0"
    by (simp add: student_db_note_1)
  obtain n where n: "find_note rerate_db 1 = Some n"
    using rerate_db_facts(3) by (cases "find_note rerate_db 1") auto
  have trace: "rerate_db =
      run toy_digest (fst (rate_note student_db 1 5 ''great'' ''2024-01-02 09:00:00''))
        [Download 1 ''2024-01-02 09:30:00'', Authenticate ''admin'' ''admin123'',
         Rate 1 4 ''solid'' ''2024-01-02 11:00:00'', Authenticate ''student1'' ''pass123'']"
    by (simp add: rerate_db_def rated_db_def)
  have row: "find (\<lambda>r. r_note_id r = 1 \<and> r_user_id r = s_id ?cu) (ratings rerate_db) =
     Some \<lparr>r_note_id = 1, r_user_id = 2, r_rating = 5, r_review = ''great'',
           r_created_at = ''2024-01-02 09:00:00''\<rparr>"
    using rerate_db_facts(2) by simp
  have range: "in_int64 1" by (simp add: in_int64_def)
  show ?thesis
    using rate_note_again_when_present [OF reachable_student_db student_db_session n0 _ _ trace
        rerate_db_facts(1) _ n row _ _ refl range, of 2 "''dated''" "''2024-01-03 09:00:00''"]
      rerate_db_facts n
    by simp
qed

section \<open>Texts that \<^verbatim>\<open>LIKE\<close> treats as substrings, and texts it does not\<close>

lemma hex_digit_not_nul: "hex_digit k \<noteq> CHR 0x00"
proof -
  have "k mod 16 < length ''0123456789abcdef''" by simp
  then have "hex_digit k \<in> set ''0123456789abcdef''"
    unfolding hex_digit_def by (rule nth_mem)
  then show ?thesis by auto
qed

lemma json_escape_no_nul: "CHR 0x00 \<notin> set (json_escape c)"
proof -
  have "c \<noteq> CHR 0x00" if "32 \<le> (of_char c :: nat)"
    using that by auto
  then show ?thesis
    using hex_digit_not_nul [of "of_char c div 16"] hex_digit_not_nul [of "of_char c"]
    by (auto simp: json_escape_def Let_def)
qed

lemma json_string_no_nul: "CHR 0x00 \<notin> set (json_string s)"
  using json_escape_no_nul by (auto simp: json_string_def)

lemma join_no_nul:
  assumes "CHR 0x00 \<notin> set sep" and "\<forall>x \<in> set xs. CHR 0x00 \<notin> set x"
  shows "CHR 0x00 \<notin> set (join sep xs)"
  using assms by (induction sep xs rule: join.induct) auto

lemma json_dumps_no_nul: "CHR 0x00 \<notin> set (json_dumps ts)"
proof -
  have "CHR 0x00 \<notin> set (join '', '' (map json_string ts))"
    by (rule join_no_nul) (simp_all add: json_string_no_nul)
  then show ?thesis by (simp add: json_dumps_def)
qed

lemma text_filter_plain:
  assumes "CHR ''%'' \<notin> set query" and "CHR ''_'' \<notin> set query" and "CHR 0x00 \<notin> set query"
    and "utf8_length (''%'' @ query @ ''%'') \<le> like_pattern_limit"
    and "CHR 0x00 \<notin> set (n_title n)" and "CHR 0x00 \<notin> set (n_description n)"
    and "CHR 0x00 \<notin> set (n_subject n)"
  shows "text_filter query n = Returns (ascii_text_match query n)"
proof -
  from assms(3) have "CHR 0x00 \<notin> set (''%'' @ query @ ''%'')" by simp
  then have pat: "c_string (''%'' @ query @ ''%'') = ''%'' @ query @ ''%''"
    by (rule c_string_id)
  have fields: "c_string (n_title n) = n_title n" "c_string (n_description n) = n_description n"
    "c_string (n_subject n) = n_subject n"
    "c_string (json_dumps (n_tags n)) = json_dumps (n_tags n)"
    using assms(5-7) json_dumps_no_nul by (simp_all add: c_string_id)
  show ?thesis
    unfolding text_filter_in_limit [OF assms(4)] pat fields
    by (simp only: like_substring [OF assms(1,2)] ascii_text_match_def)
qed

lemma find_snoc:
  "find P (xs @ [x]) = (case find P xs of None \<Rightarrow> (if P x then Some x else None) | Some y \<Rightarrow> Some y)"
  by (induction xs) auto

lemma utf8_length_replicate_ascii:
  assumes "(of_char c :: int) < 128"
  shows "utf8_length (replicate k c) = int k"
  using assms by (induction k) (simp_all add: utf8_length_def)

lemma long_text_pattern: "utf8_length (''%'' @ long_text @ ''%'') > like_pattern_limit"
proof -
  have "utf8_length long_text = 49999"
    unfolding long_text_def using utf8_length_replicate_ascii [of "CHR ''a''" 49999] by simp
  then show ?thesis
    by (simp add: utf8_length_append like_pattern_limit_def utf8_length_def)
qed

lemma student_db_counters: "find_note student_db 6 = None" "notes_seq student_db = 5"
  by code_simp+

lemma long_db_note_6:
  "\<exists>n. find_note long_db 6 = Some n \<and> n_title n = long_text"
proof -
  have "long_text \<noteq> []" by (simp add: long_text_def)
  then show ?thesis
    using student_db_counters
    by (simp add: long_db_def add_note_def student_db_session insert_note_def find_note_def
        find_snoc Let_def)
qed

section \<open>The claims\<close>

text \<open>
  Claim C1. The code breaks this. \<^verbatim>\<open>rate_note\<close> accepts a rating for an id that no note
  has, and \<^verbatim>\<open>add_note\<close> later hands that id out: in \<open>orphan_db\<close>, the state right after
  a call of \<^verbatim>\<open>rate_note\<close>, note 6 is present with both aggregates 0 while the \<^verbatim>\<open>ratings\<close>
  table holds one row for it, of value 5.
\<close>

theorem rate_note_stale_aggregates:
  "reachable toy_digest orphan_db \<and>
   orphan_db = fst (rate_note orphan_before 1 3 [] ''2024-01-02 10:20:00'') \<and>
   map_option n_rating_sum (find_note orphan_db 6) = Some 0 \<and>
   map_option n_rating_count (find_note orphan_db 6) = Some 0 \<and>
   sum_ratings orphan_db 6 = 5 \<and> count_ratings orphan_db 6 = 1 \<and>
   \<not> list_all (aggregates_ok orphan_db) (notes_tbl orphan_db)"
proof -
  have "map_option n_rating_sum (find_note orphan_db 6) = Some 0 \<and>
    map_option n_rating_count (find_note orphan_db 6) = Some 0 \<and>
    sum_ratings orphan_db 6 = 5 \<and> count_ratings orphan_db 6 = 1 \<and>
    \<not> list_all (aggregates_ok orphan_db) (notes_tbl orphan_db)"
    by code_simp
  with reachable_orphan_db show ?thesis by (simp add: orphan_db_def)
qed

text \<open>
  Claim C2. The code breaks this. In the reachable state \<open>orphan_before\<close> the user
  \<^verbatim>\<open>student1\<close> (id 2) is logged in and has the \<^verbatim>\<open>ratings\<close> row of value 5 for the id 6,
  written by \<^verbatim>\<open>rate_note\<close> while no note had that id, and note 6, uploaded afterwards,
  is present with both aggregates 0. The second \<^verbatim>\<open>rate_note\<close> of \<^verbatim>\<open>student1\<close> on note 6,
  with the value 2, succeeds and adds no row, but \<^verbatim>\<open>rating_count\<close> goes from 0 to 1 and
  \<^verbatim>\<open>rating_sum\<close> from 0 to 2, not by 2 - 5.
\<close>

theorem rate_note_again_after_orphan:
  "reachable toy_digest orphan_before \<and>
   current_user orphan_before =
     Some \<lparr>s_id = 2, s_username = ''student1'', s_role = ''student''\<rparr> \<and>
   ratings_of orphan_before 6 =
     [\<lparr>r_note_id = 6, r_user_id = 2, r_rating = 5, r_review = [],
       r_created_at = ''2024-01-02 10:00:00''\<rparr>] \<and>
   map_option n_rating_count (find_note orphan_before 6) = Some 0 \<and>
   map_option n_rating_sum (find_note orphan_before 6) = Some 0 \<and>
   snd (rate_note orphan_before 6 2 ''dated'' ''2024-01-03 09:00:00'') = Inr () \<and>
   ratings_of (fst (rate_note orphan_before 6 2 ''dated'' ''2024-01-03 09:00:00'')) 6 =
     [\<lparr>r_note_id = 6, r_user_id = 2, r_rating = 2, r_review = ''dated'',
       r_created_at = ''2024-01-02 10:00:00''\<rparr>] \<and>
   map_option n_rating_count
     (find_note (fst (rate_note orphan_before 6 2 ''dated'' ''2024-01-03 09:00:00'')) 6) =
     Some 1 \<and>
   map_option n_rating_sum
     (find_note (fst (rate_note orphan_before 6 2 ''dated'' ''2024-01-03 09:00:00'')) 6) =
     Some 2"
proof -
  have "current_user orphan_before =
     Some \<lparr>s_id = 2, s_username = ''student1'', s_role = ''student''\<rparr> \<and>
   ratings_of orphan_before 6 =
     [\<lparr>r_note_id = 6, r_user_id = 2, r_rating = 5, r_review = [],
       r_created_at = ''2024-01-02 10:00:00''\<rparr>] \<and>
   map_option n_rating_count (find_note orphan_before 6) = Some 0 \<and>
   map_option n_rating_sum (find_note orphan_before 6) = Some 0 \<and>
   snd (rate_note orphan_before 6 2 ''dated'' ''2024-01-03 09:00:00'') = Inr () \<and>
   ratings_of (fst (rate_note orphan_before 6 2 ''dated'' ''2024-01-03 09:00:00'')) 6 =
     [\<lparr>r_note_id = 6, r_user_id = 2, r_rating = 2, r_review = ''dated'',
       r_created_at = ''2024-01-02 10:00:00''\<rparr>] \<and>
   map_option n_rating_count
     (find_note (fst (rate_note orphan_before 6 2 ''dated'' ''2024-01-03 09:00:00'')) 6) =
     Some 1 \<and>
   map_option n_rating_sum
     (find_note (fst (rate_note orphan_before 6 2 ''dated'' ''2024-01-03 09:00:00'')) 6) =
     Some 2"
    by code_simp
  with reachable_orphan_before show ?thesis by blast
qed

text \<open>
  Claim C3. The code does not do this: \<^verbatim>\<open>rate_note\<close> never looks the note up. With
  \<^verbatim>\<open>student1\<close> logged in on the demo database, rating the absent id 999 with 5 succeeds
  and leaves a \<^verbatim>\<open>ratings\<close> row for 999.
\<close>

theorem rate_note_absent_note_succeeds:
  "find_note student_db 999 = None \<and>
   snd (rate_note student_db 999 5 [] ''2024-01-02 09:00:00'') = Inr () \<and>
   ratings_of (fst (rate_note student_db 999 5 [] ''2024-01-02 09:00:00'')) 999 =
     [\<lparr>r_note_id = 999, r_user_id = 2, r_rating = 5, r_review = [],
       r_created_at = ''2024-01-02 09:00:00''\<rparr>]"
  by code_simp

text \<open>
  Claim C4, as the code has it. With a session and the note present, \<^verbatim>\<open>download_note\<close>
  succeeds with the note's \<^verbatim>\<open>file_path\<close>, the note's \<^verbatim>\<open>downloads\<close> counter is one more than
  before, and \<^verbatim>\<open>download_history\<close> is the former table with one new row for this note and
  user appended. With a session and no note of the id, an id within the signed 64-bit
  range of a database \<^verbatim>\<open>INTEGER\<close>, it fails with "Note not found" (a \<open>NotFoundError\<close>).
  Without a session it fails, for any id, with "Please login first" (an \<open>AuthError\<close>).
  Both failures leave the state as it was.
\<close>

theorem download_note_effect:
  "(current_user db = None \<longrightarrow>
      download_note db note_id now = (db, Returns (Inl PleaseLogin))) \<and>
   (current_user db = Some cu \<and> in_int64 note_id \<and> find_note db note_id = None \<longrightarrow>
      download_note db note_id now = (db, Returns (Inl NoteNotFound))) \<and>
   (current_user db = Some cu \<and> find_note db note_id = Some n \<longrightarrow>
      snd (download_note db note_id now) = Returns (Inr (n_file_path n)) \<and>
      find_note (fst (download_note db note_id now)) note_id =
        Some (n\<lparr>n_downloads := n_downloads n + 1\<rparr>) \<and>
      download_history (fst (download_note db note_id now)) =
        download_history db @
          [\<lparr>d_note_id = note_id, d_user_id = s_id cu, d_download_date = now\<rparr>]) \<and>
   error_class_of PleaseLogin = AuthError \<and> error_class_of NoteNotFound = NotFoundError"
  by (auto simp: download_note_def find_note_def find_map_same_id)

theorem download_note_effect_witness:
  "download_note demo_db 1 ''2024-01-02 09:05:00'' = (demo_db, Returns (Inl PleaseLogin)) \<and>
   download_note student_db 999 ''2024-01-02 09:05:00'' =
     (student_db, Returns (Inl NoteNotFound)) \<and>
   snd (download_note student_db 1 ''2024-01-02 09:05:00'') =
     Returns (Inr ''uploaded_files/intro_python.pdf'') \<and>
   map_option n_downloads
     (find_note (fst (download_note student_db 1 ''2024-01-02 09:05:00'')) 1) = Some 1 \<and>
   download_history (fst (download_note student_db 1 ''2024-01-02 09:05:00'')) =
     [\<lparr>d_note_id = 1, d_user_id = 2, d_download_date = ''2024-01-02 09:05:00''\<rparr>]"
  using download_note_effect [where db = demo_db and note_id = 1 and now = "''2024-01-02 09:05:00''"]
    download_note_effect [where db = student_db and note_id = 999
      and now = "''2024-01-02 09:05:00''"
      and cu = "\<lparr>s_id = 2, s_username = ''student1'', s_role = ''student''\<rparr>"]
    download_note_effect [where db = student_db and note_id = 1
      and now = "''2024-01-02 09:05:00''"
      and cu = "\<lparr>s_id = 2, s_username = ''student1'', s_role = ''student''\<rparr>"
      and n = "the (find_note student_db 1)"]
  by (simp add: demo_db_session student_db_session student_db_note_1 student_db_note_999
      student_db_history in_int64_def)

text \<open>The claim as the specification words it fails on an id outside the 64-bit range:
  with \<^verbatim>\<open>student1\<close> logged in, no note has the id \<open>2 ^ 63\<close>, and \<^verbatim>\<open>download_note\<close> does not
  return "Note not found" but is left by \<^verbatim>\<open>OverflowError\<close>.\<close>

theorem download_note_effect_counterexample:
  "current_user student_db =
     Some \<lparr>s_id = 2, s_username = ''student1'', s_role = ''student''\<rparr> \<and>
   find_note student_db 9223372036854775808 = None \<and>
   download_note student_db 9223372036854775808 ''2024-01-02 09:05:00'' =
     (student_db, Raises OverflowError)"
proof -
  have "find_note student_db 9223372036854775808 = None"
    by code_simp
  then show ?thesis
    by (simp add: download_note_def student_db_session in_int64_def)
qed

text \<open>
  Claim C5. When the note exists and the session is neither its uploader nor of role
  \<^verbatim>\<open>admin\<close> (or there is no session at all), \<^verbatim>\<open>delete_note\<close> fails with an \<open>AuthError\<close>
  and returns the state it was given: the note, its ratings and its download events are
  all still there.
\<close>

theorem delete_note_denied:
  assumes "find_note db note_id = Some note"
    and "case current_user db of None \<Rightarrow> True
         | Some cu \<Rightarrow> n_uploader_id note \<noteq> s_id cu \<and> s_role cu \<noteq> ''admin''"
  shows "\<exists>f. delete_note db note_id rm_ok = (db, Returns (Inl f)) \<and>
           error_class_of f = AuthError"
  using assms by (auto simp: delete_note_def split: option.splits)

theorem delete_note_denied_witness:
  "\<exists>f. delete_note student_db 1 True = (student_db, Returns (Inl f)) \<and>
        error_class_of f = AuthError"
proof -
  have present: "find_note student_db 1 = Some (the (find_note student_db 1))"
    by (simp add: student_db_note_1)
  have stranger: "case current_user student_db of None \<Rightarrow> True
    | Some cu \<Rightarrow> n_uploader_id (the (find_note student_db 1)) \<noteq> s_id cu \<and> s_role cu \<noteq> ''admin''"
    by (simp add: student_db_note_1 student_db_session)
  show ?thesis by (rule delete_note_denied [OF present stranger])
qed

text \<open>
  Claim C6. When the note exists and the session is its uploader or of role \<^verbatim>\<open>admin\<close>,
  \<^verbatim>\<open>delete_note\<close> succeeds; afterwards no \<^verbatim>\<open>ratings\<close> row and no \<^verbatim>\<open>download_history\<close>
  row of that note id is left and looking the id up finds nothing.
\<close>

theorem delete_note_cascades:
  assumes "current_user db = Some cu"
    and "find_note db note_id = Some note"
    and "n_uploader_id note = s_id cu \<or> s_role cu = ''admin''"
  shows "snd (delete_note db note_id rm_ok) = Returns (Inr ()) \<and>
         ratings_of (fst (delete_note db note_id rm_ok)) note_id = [] \<and>
         downloads_of (fst (delete_note db note_id rm_ok)) note_id = [] \<and>
         find_note (fst (delete_note db note_id rm_ok)) note_id = None"
  using assms
  by (auto simp: delete_note_def ratings_of_def downloads_of_def find_note_def Let_def
      find_None_iff)

theorem delete_note_cascades_witness:
  "ratings_of busy_db 2 \<noteq> [] \<and> downloads_of busy_db 2 \<noteq> [] \<and>
   snd (delete_note busy_db 2 True) = Returns (Inr ()) \<and>
   ratings_of (fst (delete_note busy_db 2 True)) 2 = [] \<and>
   downloads_of (fst (delete_note busy_db 2 True)) 2 = [] \<and>
   find_note (fst (delete_note busy_db 2 True)) 2 = None"
proof -
  have present: "find_note busy_db 2 = Some (the (find_note busy_db 2))"
    using busy_db_note_2 by (cases "find_note busy_db 2") simp_all
  have owner: "n_uploader_id (the (find_note busy_db 2)) =
      s_id \<lparr>s_id = 2, s_username = ''student1'', s_role = ''student''\<rparr> \<or>
      s_role \<lparr>s_id = 2, s_username = ''student1'', s_role = ''student''\<rparr> = ''admin''"
    using busy_db_note_2 by (cases "find_note busy_db 2") simp_all
  show ?thesis
    using delete_note_cascades [OF busy_db_session present owner, of True]
    by (simp add: busy_db_ledgers)
qed

text \<open>
  Claim C7. In every state the program reaches, the search with the empty text, the
  category \<^verbatim>\<open>All\<close> and the sort key \<^verbatim>\<open>recent\<close> returns one view per note of the catalog
  (the views of a rearrangement of all the notes, each joined with its uploader), and
  the views come by descending upload timestamp.
\<close>

theorem search_recent_lists_all:
  assumes "reachable H db"
  shows "\<exists>rows.
           search_notes fdiv round1 db [] ''All'' ''recent'' =
             Returns (map (to_view fdiv round1) rows) \<and>
           mset (map fst rows) = mset (notes_tbl db) \<and>
           (\<forall>row \<in> set rows.
              snd row \<in> set (users db) \<and> u_id (snd row) = n_uploader_id (fst row)) \<and>
           mset (map v_id (map (to_view fdiv round1) rows)) =
             mset (map n_id (notes_tbl db)) \<and>
           sorted_wrt (\<lambda>a b. v_upload_date a \<ge> v_upload_date b)
             (map (to_view fdiv round1) rows)"
proof -
  define rows where
    "rows = order_by_desc (\<lambda>row. n_upload_date (fst row)) (join_users db)"
  have ok: "store_ok db" using assms by (rule reachable_store_ok)
  have res: "search_notes fdiv round1 db [] ''All'' ''recent'' =
      Returns (map (to_view fdiv round1) rows)"
    by (simp add: search_recent_rows rows_def)
  have "mset rows = mset (join_users db)"
    unfolding rows_def by (rule mset_order_by_desc)
  then have "mset (map fst rows) = mset (map fst (join_users db))"
    by (rule mset_map_eq)
  then have all: "mset (map fst rows) = mset (notes_tbl db)"
    by (simp only: join_users_all [OF ok])
  have joined: "\<forall>row \<in> set rows.
      snd row \<in> set (users db) \<and> u_id (snd row) = n_uploader_id (fst row)"
    using join_users_rows by (simp add: rows_def set_order_by_desc)
  have "map v_id (map (to_view fdiv round1) rows) = map n_id (map fst rows)"
    by (simp add: to_view_fields)
  moreover have "mset (map n_id (map fst rows)) = mset (map n_id (notes_tbl db))"
    using all by (rule mset_map_eq)
  ultimately have ids: "mset (map v_id (map (to_view fdiv round1) rows)) =
      mset (map n_id (notes_tbl db))"
    by (simp only:)
  have "sorted_wrt (\<lambda>a b. n_upload_date (fst a) \<ge> n_upload_date (fst b)) rows"
    unfolding rows_def by (rule sorted_order_by_desc)
  then have sorted: "sorted_wrt (\<lambda>a b. v_upload_date a \<ge> v_upload_date b)
      (map (to_view fdiv round1) rows)"
    by (simp add: sorted_wrt_map to_view_fields)
  show ?thesis
    unfolding res
  proof (intro exI conjI)
    show "Returns (map (to_view fdiv round1) rows) = Returns (map (to_view fdiv round1) rows)"
      by (rule refl)
    show "mset (map fst rows) = mset (notes_tbl db)" by (rule all)
    show "\<forall>row \<in> set rows.
      snd row \<in> set (users db) \<and> u_id (snd row) = n_uploader_id (fst row)" by (rule joined)
    show "mset (map v_id (map (to_view fdiv round1) rows)) = mset (map n_id (notes_tbl db))"
      by (rule ids)
    show "sorted_wrt (\<lambda>a b. v_upload_date a \<ge> v_upload_date b)
      (map (to_view fdiv round1) rows)" by (rule sorted)
  qed
qed

theorem search_recent_lists_all_witness:
  "mset (map v_id
     (returned (search_notes exact_div round_tenth orphan_before [] ''All'' ''recent''))) =
     mset (map n_id (notes_tbl orphan_before)) \<and>
   sorted_wrt (\<lambda>a b. v_upload_date a \<ge> v_upload_date b)
     (returned (search_notes exact_div round_tenth orphan_before [] ''All'' ''recent'')) \<and>
   map v_id (returned (search_notes exact_div round_tenth orphan_before [] ''All'' ''recent'')) =
     [6, 1, 2, 3, 4, 5] \<and>
   map n_id (notes_tbl orphan_before) = [1, 2, 3, 4, 5, 6]"
proof -
  from search_recent_lists_all [OF reachable_orphan_before, of exact_div round_tenth]
  obtain rows where
    "search_notes exact_div round_tenth orphan_before [] ''All'' ''recent'' =
       Returns (map (to_view exact_div round_tenth) rows)"
    and "mset (map v_id (map (to_view exact_div round_tenth) rows)) =
       mset (map n_id (notes_tbl orphan_before))"
    and "sorted_wrt (\<lambda>a b. v_upload_date a \<ge> v_upload_date b)
       (map (to_view exact_div round_tenth) rows)"
    by blast
  then show ?thesis
    using orphan_before_search by simp
qed

text \<open>
  Claim C8, as the code has it. The search text contains none of \<^verbatim>\<open>%\<close>, \<^verbatim>\<open>_\<close> and the NUL
  character, the pattern made of it is at most 50000 bytes long, and the title, the
  description and the subject of the note contain no NUL character. Then the text
  filter admits the note exactly when the text occurs, the ASCII letters compared
  without case and every other character exactly, as a substring of the title, the
  description, the subject or the serialized tag list; and \<^verbatim>\<open>search_notes\<close> returns the
  views of exactly the joined rows that pass the text filter (no test for the empty
  text) and the category test.
\<close>

theorem text_filter_substring:
  assumes "CHR ''%'' \<notin> set query" and "CHR ''_'' \<notin> set query" and "CHR 0x00 \<notin> set query"
    and "utf8_length (''%'' @ query @ ''%'') \<le> like_pattern_limit"
    and "CHR 0x00 \<notin> set (n_title n)" and "CHR 0x00 \<notin> set (n_description n)"
    and "CHR 0x00 \<notin> set (n_subject n)"
  shows "text_filter query n = Returns (ascii_text_match query n) \<and>
         (\<exists>res. search_notes fdiv round1 db query category sort_by = Returns res \<and>
            set res = to_view fdiv round1 `
              {row \<in> set (join_users db).
                 (query = [] \<or> text_filter query (fst row) = Returns True) \<and>
                 (category = ''All'' \<or> n_category (fst row) = category)})"
proof
  show "text_filter query n = Returns (ascii_text_match query n)"
    using assms by (rule text_filter_plain)
  from assms(4)
  have "query = [] \<or> utf8_length (''%'' @ query @ ''%'') \<le> like_pattern_limit"
    by simp
  then show "\<exists>res. search_notes fdiv round1 db query category sort_by = Returns res \<and>
            set res = to_view fdiv round1 `
              {row \<in> set (join_users db).
                 (query = [] \<or> text_filter query (fst row) = Returns True) \<and>
                 (category = ''All'' \<or> n_category (fst row) = category)}"
    by (rule set_search_notes)
qed

theorem text_filter_substring_witness:
  "map_option (text_filter ''PYTHON'') (find_note student_db 1) = Some (Returns True) \<and>
   map_option (text_filter ''sql'') (find_note student_db 1) = Some (Returns False)"
proof -
  obtain n where n: "find_note student_db 1 = Some n"
    and fields: "CHR 0x00 \<notin> set (n_title n)" "CHR 0x00 \<notin> set (n_description n)"
      "CHR 0x00 \<notin> set (n_subject n)"
    and spec: "ascii_text_match ''PYTHON'' n" "\<not> ascii_text_match ''sql'' n"
  proof
    show "find_note student_db 1 = Some (the (find_note student_db 1))"
      by (simp add: student_db_note_1)
    show "CHR 0x00 \<notin> set (n_title (the (find_note student_db 1)))"
      "CHR 0x00 \<notin> set (n_description (the (find_note student_db 1)))"
      "CHR 0x00 \<notin> set (n_subject (the (find_note student_db 1)))"
      "ascii_text_match ''PYTHON'' (the (find_note student_db 1))"
      "\<not> ascii_text_match ''sql'' (the (find_note student_db 1))"
      by code_simp+
  qed
  have plain: "CHR ''%'' \<notin> set ''PYTHON''" "CHR ''_'' \<notin> set ''PYTHON''"
    "CHR 0x00 \<notin> set ''PYTHON''"
    "utf8_length (''%'' @ ''PYTHON'' @ ''%'') \<le> like_pattern_limit"
    "CHR ''%'' \<notin> set ''sql''" "CHR ''_'' \<notin> set ''sql''" "CHR 0x00 \<notin> set ''sql''"
    "utf8_length (''%'' @ ''sql'' @ ''%'') \<le> like_pattern_limit"
    by (simp_all add: utf8_length_def like_pattern_limit_def)
  show ?thesis
    using text_filter_substring [OF plain(1-4) fields, THEN conjunct1]
      text_filter_substring [OF plain(5-8) fields, THEN conjunct1] spec
    by (simp add: n)
qed

text \<open>
  The claim as the specification words it fails in each of these ways:
  \<^item> the text \<^verbatim>\<open>_\<close> admits the first demo note, whose four fields contain no underscore;
  \<^item> the text of the one character of code 201, the capital E with an acute accent,
    does not admit note 6 of \<open>odd_db\<close>, whose title begins with the small letter of it
    (code 233) and so contains the text when case is disregarded;
  \<^item> the text made of one NUL character admits the first demo note, whose fields
    contain no NUL character;
  \<^item> the text \<^verbatim>\<open>b\<close> does not admit note 7 of \<open>odd_db\<close>, whose title has a \<^verbatim>\<open>b\<close> after a NUL
    character;
  \<^item> for the text \<open>long_text\<close>, which is the title of note 6 of \<open>long_db\<close>, the filter
    admits nothing: the \<^verbatim>\<open>LIKE\<close> raises and the exception leaves \<^verbatim>\<open>search_notes\<close>.
\<close>

theorem text_filter_substring_counterexample:
  "(map_option (text_filter ''_'') (find_note demo_db 1) = Some (Returns True) \<and>
    map_option (spec_text_match ''_'') (find_note demo_db 1) = Some False) \<and>
   (map_option (text_filter [CHR 0xC9]) (find_note odd_db 6) = Some (Returns False) \<and>
    map_option (spec_text_match [CHR 0xC9]) (find_note odd_db 6) = Some True) \<and>
   (map_option (text_filter [CHR 0x00]) (find_note demo_db 1) = Some (Returns True) \<and>
    map_option (spec_text_match [CHR 0x00]) (find_note demo_db 1) = Some False) \<and>
   (map_option (text_filter ''b'') (find_note odd_db 7) = Some (Returns False) \<and>
    map_option (spec_text_match ''b'') (find_note odd_db 7) = Some True) \<and>
   (map_option (text_filter long_text) (find_note long_db 6) = Some (Raises OperationalError) \<and>
    map_option (spec_text_match long_text) (find_note long_db 6) = Some True \<and>
    search_notes exact_div round_tenth long_db long_text ''All'' ''recent'' =
      Raises OperationalError)"
proof -
  have short: "(map_option (text_filter ''_'') (find_note demo_db 1) = Some (Returns True) \<and>
    map_option (spec_text_match ''_'') (find_note demo_db 1) = Some False) \<and>
   (map_option (text_filter [CHR 0xC9]) (find_note odd_db 6) = Some (Returns False) \<and>
    map_option (spec_text_match [CHR 0xC9]) (find_note odd_db 6) = Some True) \<and>
   (map_option (text_filter [CHR 0x00]) (find_note demo_db 1) = Some (Returns True) \<and>
    map_option (spec_text_match [CHR 0x00]) (find_note demo_db 1) = Some False) \<and>
   (map_option (text_filter ''b'') (find_note odd_db 7) = Some (Returns False) \<and>
    map_option (spec_text_match ''b'') (find_note odd_db 7) = Some True)"
    by code_simp
  obtain n where n: "find_note long_db 6 = Some n" "n_title n = long_text"
    using long_db_note_6 by blast
  have raised: "text_filter long_text n = Raises OperationalError"
    using long_text_pattern by (rule text_filter_over_limit)
  have occurs: "spec_text_match long_text n"
    by (simp add: spec_text_match_def ci_substring_def n(2))
  from n(1) have "notes_tbl long_db \<noteq> []"
    by (auto simp: find_note_def)
  with long_text_pattern
  have "search_notes exact_div round_tenth long_db long_text ''All'' ''recent'' =
      Raises OperationalError"
    by (rule search_notes_over_limit)
  with short raised occurs show ?thesis by (simp add: n(1))
qed

text \<open>
  Claim C9. A failed \<^verbatim>\<open>authenticate\<close> call (no user of that name, or a digest that does
  not match) returns the invalid-credentials failure, an \<open>AuthError\<close>, and leaves the
  whole state, the current session included, as it was.
\<close>

theorem authenticate_failure_keeps_session:
  assumes "(\<forall>u \<in> set (users db). u_username u \<noteq> username) \<or>
           (\<exists>u. find (\<lambda>u. u_username u = username) (users db) = Some u \<and>
                u_password u \<noteq> H password)"
  shows "authenticate H db username password = (db, Inl InvalidCredentials) \<and>
         current_user (fst (authenticate H db username password)) = current_user db \<and>
         error_class_of InvalidCredentials = AuthError"
proof (cases "find (\<lambda>u. u_username u = username) (users db)")
  case None
  then show ?thesis by (simp add: authenticate_def)
next
  case (Some user)
  then have "user \<in> set (users db) \<and> u_username user = username"
    by (auto simp: find_Some_iff)
  with assms Some have "u_password user \<noteq> H password" by auto
  with Some show ?thesis by (simp add: authenticate_def)
qed

theorem authenticate_failure_keeps_session_witness:
  "authenticate toy_digest student_db ''admin'' ''letmein'' =
     (student_db, Inl InvalidCredentials) \<and>
   authenticate toy_digest student_db ''nobody'' ''admin123'' =
     (student_db, Inl InvalidCredentials) \<and>
   current_user (fst (authenticate toy_digest student_db ''admin'' ''letmein'')) =
     Some \<lparr>s_id = 2, s_username = ''student1'', s_role = ''student''\<rparr>"
proof -
  have mismatch: "\<exists>u. find (\<lambda>u. u_username u = ''admin'') (users student_db) = Some u \<and>
                      u_password u \<noteq> toy_digest ''letmein''"
    by (simp add: student_db_eq demo_db_users toy_digest_def)
  have absent: "\<forall>u \<in> set (users student_db). u_username u \<noteq> ''nobody''"
    by (simp add: student_db_eq demo_db_users)
  from mismatch absent show ?thesis
    using authenticate_failure_keeps_session [of student_db "''admin''" toy_digest "''letmein''"]
      authenticate_failure_keeps_session [of student_db "''nobody''" toy_digest "''admin123''"]
    by (simp add: student_db_session)
qed

text \<open>
  Claim C10. The search text is put between two \<^verbatim>\<open>%\<close> unescaped, so the text \<^verbatim>\<open>%\<close> makes
  the pattern \<^verbatim>\<open>%%%\<close>, which every string matches: for every category and sort key the
  search for \<^verbatim>\<open>%\<close> returns what the search for the empty text returns.
\<close>

theorem search_percent_matches_all:
  "search_notes fdiv round1 db ''%'' category sort_by =
   search_notes fdiv round1 db [] category sort_by"
proof -
  have "first_raise (map (text_filter ''%'') (notes_tbl db)) = None"
    by (rule first_raise_None) (auto simp: text_filter_percent)
  then show ?thesis
    by (simp add: search_notes_def text_filter_percent)
qed

theorem search_percent_matches_all_witness:
  "search_notes exact_div round_tenth demo_db ''%'' ''Computer Science'' ''recent'' =
   search_notes exact_div round_tenth demo_db [] ''Computer Science'' ''recent''"
  by (rule search_percent_matches_all)

end
